theory Spec2Isabelle
  imports Main "HOL-Library.Sublist"
begin

section \<open>Python values, exceptions and string primitives\<close>

text \<open>
  The agents of \<^verbatim>\<open>local_rag\<close> work on the values that \<^verbatim>\<open>json.loads\<close> produces. A
  decoded document is a \<open>json\<close> value; a Python \<^verbatim>\<open>dict\<close> with string keys is an
  association list in insertion order. A float is represented by the text that Python's
  \<^verbatim>\<open>repr\<close> prints for it (\<open>JFloat ''0.0''\<close> is \<^verbatim>\<open>0.0\<close>): the text decides both
  observations the agents make of a float, its truth value and its \<^verbatim>\<open>str()\<close>.
  Text is a list of 8-bit characters, read as the code points below 256.
\<close>

datatype json =
    JNull
  | JBool bool
  | JInt int
  | JFloat string
  | JStr string
  | JList "json list"
  | JDict "(string \<times> json) list"

type_synonym dict = "(string \<times> json) list"

text \<open>
  A raised exception is a value: its class, as far as an \<^verbatim>\<open>except\<close> clause of the
  source tells classes apart, and the text of \<^verbatim>\<open>str(e)\<close>. Every class other than
  the named ones is \<open>OtherException\<close>; all of them derive from \<^verbatim>\<open>Exception\<close>.
\<close>

datatype exn_class =
  JSONDecodeError | Timeout | TypeError | AttributeError | UnboundLocalError | OtherException

datatype exn = Exn (cls: exn_class) (msg: string)

subsection \<open>Dictionaries\<close>

definition dict_has :: "dict \<Rightarrow> string \<Rightarrow> bool" where
  "dict_has d k = (map_of d k \<noteq> None)"

definition dict_get :: "dict \<Rightarrow> string \<Rightarrow> json \<Rightarrow> json" where
  "dict_get d k dflt = (case map_of d k of None \<Rightarrow> dflt | Some v \<Rightarrow> v)"

fun dict_set :: "dict \<Rightarrow> string \<Rightarrow> json \<Rightarrow> dict" where
  "dict_set [] k v = [(k, v)]"
| "dict_set ((k', v') # d) k v =
     (if k' = k then (k, v) # d else (k', v') # dict_set d k v)"

subsection \<open>\<^verbatim>\<open>str.strip\<close>, \<^verbatim>\<open>str.replace\<close>, \<^verbatim>\<open>str.join\<close>\<close>

definition py_isspace :: "char \<Rightarrow> bool" where
  "py_isspace c = ((of_char c :: nat) \<in> {9..13} \<union> {28..31} \<union> {32, 133, 160})"

definition py_strip :: "string \<Rightarrow> string" where
  "py_strip s = rev (dropWhile py_isspace (rev (dropWhile py_isspace s)))"

text \<open>
  \<^verbatim>\<open>s.replace(old, new)\<close> for a non-empty \<open>old\<close>: occurrences are replaced from the
  left and do not overlap. The counter is the number of characters of the occurrence
  just replaced that are still to be skipped.
\<close>

fun replace_from :: "string \<Rightarrow> string \<Rightarrow> nat \<Rightarrow> string \<Rightarrow> string" where
  "replace_from old new k [] = []"
| "replace_from old new k (c # cs) =
     (if 0 < k then replace_from old new (k - 1) cs
      else if prefix old (c # cs) then new @ replace_from old new (length old - 1) cs
      else c # replace_from old new 0 cs)"

definition py_replace :: "string \<Rightarrow> string \<Rightarrow> string \<Rightarrow> string" where
  "py_replace old new s =
     (if old = [] then new @ concat (map (\<lambda>c. c # new) s) else replace_from old new 0 s)"

fun py_join :: "string \<Rightarrow> string list \<Rightarrow> string" where
  "py_join sep [] = []"
| "py_join sep [x] = x"
| "py_join sep (x # y # ys) = x @ sep @ py_join sep (y # ys)"

subsection \<open>Truth values and \<^verbatim>\<open>str()\<close>\<close>

fun py_truthy :: "json \<Rightarrow> bool" where
  "py_truthy JNull = False"
| "py_truthy (JBool b) = b"
| "py_truthy (JInt i) = (i \<noteq> 0)"
| "py_truthy (JFloat r) = (r \<noteq> ''0.0'' \<and> r \<noteq> ''-0.0'')"
| "py_truthy (JStr s) = (s \<noteq> [])"
| "py_truthy (JList xs) = (xs \<noteq> [])"
| "py_truthy (JDict kvs) = (kvs \<noteq> [])"

fun dec_nat :: "nat \<Rightarrow> string" where
  "dec_nat n =
     (if n < 10 then [''0123456789'' ! n]
      else dec_nat (n div 10) @ [''0123456789'' ! (n mod 10)])"

declare dec_nat.simps [simp del]

definition dec_int :: "int \<Rightarrow> string" where
  "dec_int i = (if i < 0 then CHR ''-'' # dec_nat (nat (- i)) else dec_nat (nat i))"

text \<open>\<^verbatim>\<open>repr\<close> of a \<^verbatim>\<open>str\<close>, on code points below 256.\<close>

definition hex2 :: "nat \<Rightarrow> string" where
  "hex2 n = [''0123456789abcdef'' ! (n div 16), ''0123456789abcdef'' ! (n mod 16)]"

definition repr_char :: "char \<Rightarrow> char \<Rightarrow> string" where
  "repr_char quote c =
     (let n = (of_char c :: nat) in
      if c = quote \<or> c = CHR 0x5C then [CHR 0x5C, c]
      else if n = 9 then [CHR 0x5C, CHR ''t'']
      else if n = 10 then [CHR 0x5C, CHR ''n'']
      else if n = 13 then [CHR 0x5C, CHR ''r'']
      else if n < 32 \<or> n = 127 \<or> (128 \<le> n \<and> n \<le> 160) \<or> n = 173
        then [CHR 0x5C, CHR ''x''] @ hex2 n
      else [c])"

definition repr_str :: "string \<Rightarrow> string" where
  "repr_str s =
     (let quote = (if CHR 0x27 \<in> set s \<and> CHR 0x22 \<notin> set s then CHR 0x22 else CHR 0x27)
      in [quote] @ concat (map (repr_char quote) s) @ [quote])"

fun py_repr :: "json \<Rightarrow> string" where
  "py_repr JNull = ''None''"
| "py_repr (JBool b) = (if b then ''True'' else ''False'')"
| "py_repr (JInt i) = dec_int i"
| "py_repr (JFloat r) = r"
| "py_repr (JStr s) = repr_str s"
| "py_repr (JList xs) = ''['' @ py_join '', '' (map py_repr xs) @ '']''"
| "py_repr (JDict kvs) =
     ''{'' @ py_join '', '' (map (\<lambda>kv. repr_str (fst kv) @ '': '' @ py_repr (snd kv)) kvs) @ ''}''"

definition py_str :: "json \<Rightarrow> string" where
  "py_str v = (case v of JStr s \<Rightarrow> s | _ \<Rightarrow> py_repr v)"

section \<open>The response parser: \<^verbatim>\<open>BaseReActAgent._call_llm\<close>\<close>

text \<open>
  \<^verbatim>\<open>re.findall(r'\{[\s\S]*?\}', content)\<close>: the matches are found from the left and do
  not overlap; each starts at a \<^verbatim>\<open>{\<close> and, the star being lazy, ends at the first
  \<^verbatim>\<open>}\<close> after it. \<open>scan_braces\<close> carries the candidate being read, if any; a
  candidate that the text ends before closing is no match.
\<close>

fun scan_braces :: "string option \<Rightarrow> string \<Rightarrow> string list" where
  "scan_braces cur [] = []"
| "scan_braces None (c # cs) =
     (if c = CHR ''{'' then scan_braces (Some [c]) cs else scan_braces None cs)"
| "scan_braces (Some b) (c # cs) =
     (if c = CHR ''}'' then (b @ [c]) # scan_braces None cs
      else scan_braces (Some (b @ [c])) cs)"

definition findall_braces :: "string \<Rightarrow> string list" where
  "findall_braces content = scan_braces None content"

text \<open>
  \<^verbatim>\<open>json.loads\<close> is the standard library's decoder and a parameter of the model: it
  returns the decoded object or the exception it raises. It is only ever applied to a
  candidate, which starts with \<^verbatim>\<open>{\<close>, so what it decodes is an object.
\<close>

type_synonym loads = "string \<Rightarrow> exn + dict"

text \<open>The body of the \<^verbatim>\<open>try\<close> inside the loop over the candidates.\<close>

definition blank_observation :: "dict \<Rightarrow> dict" where
  "blank_observation parsed =
     (if dict_has parsed ''observation'' then dict_set parsed ''observation'' (JStr '''')
      else parsed)"

text \<open>
  The loop over the candidates. A \<^verbatim>\<open>JSONDecodeError\<close> skips the candidate; any other
  exception leaves the loop for the handlers of the enclosing \<^verbatim>\<open>try\<close>.
\<close>

fun parse_blocks :: "loads \<Rightarrow> string list \<Rightarrow> dict list \<Rightarrow> exn + dict list" where
  "parse_blocks loads [] parsed_blocks = Inr parsed_blocks"
| "parse_blocks loads (block # blocks) parsed_blocks =
     (case loads block of
        Inr parsed \<Rightarrow> parse_blocks loads blocks (parsed_blocks @ [blank_observation parsed])
      | Inl e \<Rightarrow>
          if cls e = JSONDecodeError then parse_blocks loads blocks parsed_blocks
          else Inl e)"

definition fallback_step :: "string \<Rightarrow> dict" where
  "fallback_step content =
     [(''thought'', JStr ''''), (''action'', JStr ''none''), (''action_input'', JStr ''''),
      (''observation'', JStr ''''),
      (''final_answer'', JStr (if content \<noteq> [] then content else ''No output from model''))]"

definition error_step :: "exn \<Rightarrow> dict" where
  "error_step e =
     [(''thought'', JStr ''''), (''action'', JStr ''none''), (''action_input'', JStr ''''),
      (''observation'', JStr (''Error: '' @ msg e)), (''final_answer'', JStr '''')]"

text \<open>
  What follows the request, for the text \<open>raw\<close> the service sent: \<^verbatim>\<open>.strip()\<close> and
  the removal of \<^verbatim>\<open></think>\<close> give \<^verbatim>\<open>content\<close>, which is then parsed.
\<close>

definition clean_content :: "string \<Rightarrow> string" where
  "clean_content raw = py_replace ''</think>'' '''' (py_strip raw)"

definition parse_content :: "loads \<Rightarrow> string \<Rightarrow> dict" where
  "parse_content loads raw =
     (let content = clean_content raw in
      case parse_blocks loads (findall_braces content) [] of
        Inl e \<Rightarrow> error_step e
      | Inr parsed_blocks \<Rightarrow>
          if parsed_blocks \<noteq> [] then last parsed_blocks else fallback_step content)"

text \<open>
  \<open>chat prompt\<close> is the outcome of the request up to the message text:
  \<^verbatim>\<open>requests.post\<close>, \<^verbatim>\<open>raise_for_status\<close> and
  \<^verbatim>\<open>response.json()["choices"][0]["message"]["content"]\<close>, either the exception raised
  on the way (a message that is not text counts as one, \<^verbatim>\<open>.strip()\<close> raising on it)
  or the text. A \<^verbatim>\<open>JSONDecodeError\<close> from \<^verbatim>\<open>response.json()\<close> reaches the first
  outer handler, which formats \<^verbatim>\<open>content[:400]\<close> before \<^verbatim>\<open>content\<close> was ever
  assigned: the handler itself raises, and \<^verbatim>\<open>_call_llm\<close> with it.
\<close>

type_synonym chat = "string \<Rightarrow> exn + string"

definition call_llm :: "loads \<Rightarrow> chat \<Rightarrow> string \<Rightarrow> exn + dict" where
  "call_llm loads chat prompt =
     (case chat prompt of
        Inl e \<Rightarrow>
          if cls e = JSONDecodeError
          then Inl (Exn UnboundLocalError ''content'')
          else Inr (error_step e)
      | Inr raw \<Rightarrow> Inr (parse_content loads raw))"

section \<open>The verifier: \<^verbatim>\<open>VerifierAgent.verify\<close>\<close>

definition uncertain :: "string \<Rightarrow> dict" where
  "uncertain reason =
     [(''verdict'', JStr ''uncertain''), (''reason'', JStr reason),
      (''suggestion'', JStr ''''), (''confidence'', JFloat ''0.0'')]"

definition verifier_prompt :: "string \<Rightarrow> json \<Rightarrow> string \<Rightarrow> string \<Rightarrow> string" where
  \<open>verifier_prompt query agent_answer observation context =
     (let is_final_answer = (observation = [] \<or> py_strip observation = []) in
      ''You are an answer quality verifier for AI researches from an assistant. Evaluate the reasoning step.\<newline>\<newline>''
      @ ''Original Question: '' @ query @ ''\<newline>\<newline>''
      @ ''Agent's Thought/Answer: '' @ py_str agent_answer @ ''\<newline>\<newline>''
      @ ''Tool Observation: ''
      @ (if observation \<noteq> [] then observation
         else ''(No tool was used - this is a final synthesis step)'') @ ''\<newline>\<newline>''
      @ ''Context: '' @ (if context \<noteq> [] then context else ''No additional context'')
      @ ''\<newline>\<newline>''
      @ ''Evaluation Criteria:\<newline>''
      @ ''1. Is the reasoning logical and coherent?\<newline>''
      @ ''2. Does it address the original question?\<newline>''
      @ (if is_final_answer
         then ''3. Is this a reasonable final answer based on previous context?''
         else ''3. Is the tool usage appropriate for gathering information?'') @ ''\<newline>''
      @ ''4. Are there any logical errors or unsupported claims?\<newline>\<newline>''
      @ (if is_final_answer
         then ''Note: This appears to be a final answer step (no tool usage), so focus on answer quality rather than tool selection.''
         else '''') @ ''\<newline>\<newline>''
      @ ''Respond in JSON:\<newline>{\<newline>''
      @ ''  "verdict": "pass" or "fail",\<newline>''
      @ ''  "reason": "brief explanation of your verdict",\<newline>''
      @ ''  "suggestion": "how to improve (if fail, otherwise empty string)",\<newline>''
      @ ''  "confidence": 0.0 to 1.0\<newline>}'')\<close>

text \<open>The two handlers of the \<^verbatim>\<open>try\<close>: \<^verbatim>\<open>requests.Timeout\<close>, then \<^verbatim>\<open>Exception\<close>.\<close>

definition verify_except :: "exn \<Rightarrow> dict" where
  "verify_except e =
     (if cls e = Timeout then uncertain ''Verifier request timed out''
      else uncertain (''Verifier error: '' @ msg e))"

text \<open>
  \<^verbatim>\<open>re.search\<close> with the pattern of the parser finds the first candidate, the head
  of what \<^verbatim>\<open>re.findall\<close> lists.
\<close>

definition verify :: "loads \<Rightarrow> chat \<Rightarrow> string \<Rightarrow> json \<Rightarrow> string \<Rightarrow> string \<Rightarrow> dict" where
  "verify loads chat query agent_answer observation context =
     (case chat (verifier_prompt query agent_answer observation context) of
        Inl e \<Rightarrow> verify_except e
      | Inr raw \<Rightarrow>
          (case findall_braces (py_strip raw) of
             [] \<Rightarrow> uncertain ''Could not parse verifier response''
           | json_match # _ \<Rightarrow>
               (case loads json_match of
                  Inl e \<Rightarrow> verify_except e
                | Inr result \<Rightarrow> result)))"

section \<open>Session memory: \<^verbatim>\<open>MemoryLayer\<close>\<close>

text \<open>
  The state of a \<^verbatim>\<open>MemoryLayer\<close>. Readings of the clock are arguments of the
  operations that take one. \<^verbatim>\<open>save_session\<close> is modelled up to the write of the
  file, which is taken to succeed; the session it reads the \<^verbatim>\<open>timestamp\<close> from was
  made by \<^verbatim>\<open>start_session\<close> and holds one.
\<close>

record memory =
  output_dir :: string
  current_session :: "dict option"
  history :: "dict list"

definition session_open :: "memory \<Rightarrow> bool" where
  "session_open m = (case current_session m of None \<Rightarrow> False | Some s \<Rightarrow> s \<noteq> [])"

definition start_session :: "memory \<Rightarrow> string \<Rightarrow> string \<Rightarrow> string \<Rightarrow> memory" where
  "start_session m query timestamp start_time =
     m\<lparr>current_session :=
         Some [(''query'', JStr query), (''timestamp'', JStr timestamp),
               (''start_time'', JStr start_time), (''steps'', JList [])],
       history := []\<rparr>"

definition dict_merge :: "dict \<Rightarrow> dict \<Rightarrow> dict" where
  "dict_merge d extra = foldl (\<lambda>acc kv. dict_set acc (fst kv) (snd kv)) d extra"

definition add_step :: "memory \<Rightarrow> int \<Rightarrow> dict \<Rightarrow> string \<Rightarrow> memory" where
  "add_step m step_number step_data now =
     (if \<not> session_open m then m
      else
        let record = dict_merge [(''step'', JInt step_number), (''timestamp'', JStr now)]
                       step_data;
            history' = history m @ [record]
        in m\<lparr>current_session :=
               map_option (\<lambda>session. dict_set session ''steps'' (JList (map JDict history')))
                 (current_session m),
             history := history'\<rparr>)"

definition save_session :: "memory \<Rightarrow> string \<Rightarrow> memory \<times> string option" where
  "save_session m now =
     (case current_session m of
        None \<Rightarrow> (m, None)
      | Some session \<Rightarrow>
          if session = [] then (m, None)
          else
            let timestamp = dict_get session ''timestamp'' JNull;
                filepath = output_dir m @ ''/session_'' @ py_str timestamp @ ''.json'';
                session' = dict_set (dict_set session ''end_time'' (JStr now))
                             ''total_steps'' (JInt (int (length (history m))))
            in (m\<lparr>current_session := Some session'\<rparr>, Some filepath))"

fun py_type_name :: "json \<Rightarrow> string" where
  "py_type_name JNull = ''NoneType''"
| "py_type_name (JBool b) = ''bool''"
| "py_type_name (JInt i) = ''int''"
| "py_type_name (JFloat r) = ''float''"
| "py_type_name (JStr s) = ''str''"
| "py_type_name (JList xs) = ''list''"
| "py_type_name (JDict kvs) = ''dict''"

text \<open>\<^verbatim>\<open>v.get(key)\<close> on a value that need not be a \<^verbatim>\<open>dict\<close>.\<close>

definition py_get_attr :: "json \<Rightarrow> string \<Rightarrow> exn + json" where
  "py_get_attr v key =
     (case v of
        JDict d \<Rightarrow> Inr (dict_get d key JNull)
      | _ \<Rightarrow> Inl (Exn AttributeError (py_type_name v @ '' object has no attribute get'')))"

definition get_summary :: "memory \<Rightarrow> exn + json" where
  "get_summary m =
     (if history m = [] then Inr (JStr ''No steps recorded'')
      else
        let total_steps = length (history m);
            actions_taken = filter py_truthy (map (\<lambda>s. dict_get s ''action'' JNull) (history m))
        in case py_get_attr (dict_get (last (history m)) ''verification'' (JDict [])) ''verdict'' of
             Inl e \<Rightarrow> Inl e
           | Inr last_verdict \<Rightarrow>
               Inr (JDict [(''total_steps'', JInt (int total_steps)),
                           (''actions_taken'', JList actions_taken),
                           (''last_verdict'', last_verdict)]))"

text \<open>
  \<^verbatim>\<open>v[:n]\<close>: text and lists are sliced, anything else raises (a \<^verbatim>\<open>dict\<close> raises
  \<^verbatim>\<open>TypeError\<close> up to Python 3.11 and \<^verbatim>\<open>KeyError\<close> after it, one class here).
\<close>

definition py_slice_to :: "nat \<Rightarrow> json \<Rightarrow> exn + json" where
  "py_slice_to n v =
     (case v of
        JStr s \<Rightarrow> Inr (JStr (take n s))
      | JList xs \<Rightarrow> Inr (JList (take n xs))
      | _ \<Rightarrow> Inl (Exn TypeError (py_type_name v @ '' object is not subscriptable'')))"

text \<open>\<^verbatim>\<open>xs[i:]\<close> for an index of either sign.\<close>

definition py_slice_from :: "int \<Rightarrow> 'a list \<Rightarrow> 'a list" where
  "py_slice_from i xs =
     (if i < 0 then drop (nat (max (int (length xs) + i) 0)) xs else drop (nat i) xs)"

fun summary_lines :: "dict list \<Rightarrow> exn + string list" where
  "summary_lines [] = Inr []"
| "summary_lines (step # recent) =
     (let step_num = dict_get step ''step'' (JStr ''?'');
          action = dict_get step ''action'' (JStr ''none'')
      in case py_slice_to 100 (dict_get step ''thought'' (JStr '''')) of
           Inl e \<Rightarrow> Inl e
         | Inr thought \<Rightarrow>
             (case summary_lines recent of
                Inl e \<Rightarrow> Inl e
              | Inr summary \<Rightarrow>
                  Inr ((''Step '' @ py_str step_num @ '': '' @ py_str thought
                        @ ''... (action: '' @ py_str action @ '')'') # summary)))"

definition get_context_summary :: "memory \<Rightarrow> int \<Rightarrow> exn + string" where
  "get_context_summary m max_steps =
     (if history m = [] then Inr ''No previous context''
      else case summary_lines (py_slice_from (- max_steps) (history m)) of
             Inl e \<Rightarrow> Inl e
           | Inr summary \<Rightarrow> Inr (py_join ''\<newline>'' summary))"

section \<open>Tool dispatch, as both controllers write it\<close>

text \<open>
  The block under \<^verbatim>\<open># Normalizing input\<close>: a list is joined with spaces, a mapping is
  rendered as \<^verbatim>\<open>key: value\<close> pairs joined with spaces, and the text that results is
  stripped; an empty text gives way to the query. The first component is the variable
  \<^verbatim>\<open>action_input\<close> as the block leaves it, the second \<^verbatim>\<open>action_input_str\<close>.
\<close>

definition normalize_input :: "string \<Rightarrow> json \<Rightarrow> json \<times> string" where
  "normalize_input query action_input =
     (let action_input' =
            (case action_input of
               JList xs \<Rightarrow> JStr (py_join '' '' (map py_str xs))
             | JDict kvs \<Rightarrow> JStr (py_join '' '' (map (\<lambda>kv. fst kv @ '': '' @ py_str (snd kv)) kvs))
             | _ \<Rightarrow> action_input);
          action_input_str = py_strip (py_str action_input')
      in (action_input', if action_input_str = [] then query else action_input_str))"

text \<open>
  A registered tool is what its \<^verbatim>\<open>execute\<close> does with the text it is given in a given
  iteration: the observation, or the exception it raises. \<^verbatim>\<open>self.tools.get(action)\<close>
  raises on a list or a mapping, which cannot be hashed, and finds nothing under a key
  that is not text, the registry being keyed by tool names.
\<close>

type_synonym tool = "nat \<Rightarrow> string \<Rightarrow> exn + string"

definition dispatch ::
  "(string \<rightharpoonup> tool) \<Rightarrow> nat \<Rightarrow> string \<Rightarrow> json \<Rightarrow> json \<Rightarrow> exn + string \<times> json" where
  "dispatch registry iteration query action action_input =
     (case action of
        JList xs \<Rightarrow> Inl (Exn TypeError ''unhashable type: list'')
      | JDict kvs \<Rightarrow> Inl (Exn TypeError ''unhashable type: dict'')
      | JStr name \<Rightarrow>
          (case registry name of
             None \<Rightarrow> Inr (''Unknown tool: '' @ name, action_input)
           | Some execute \<Rightarrow>
               (case execute iteration (snd (normalize_input query action_input)) of
                  Inr observation \<Rightarrow> Inr (observation, fst (normalize_input query action_input))
                | Inl e \<Rightarrow>
                    Inr (''Tool error: '' @ msg e, fst (normalize_input query action_input))))
      | _ \<Rightarrow> Inr (''Unknown tool: '' @ py_str action, action_input))"

text \<open>
  The log line \<^verbatim>\<open>f"... {thought[:150]}..."\<close> under \<^verbatim>\<open>if thought:\<close> is evaluated
  before it is logged, and raises on a thought that cannot be sliced.
\<close>

definition log_thought :: "json \<Rightarrow> exn option" where
  "log_thought thought =
     (if py_truthy thought
      then (case py_slice_to 150 thought of Inl e \<Rightarrow> Some e | Inr t \<Rightarrow> None)
      else None)"

section \<open>The base controller: \<^verbatim>\<open>BaseReActAgent.run\<close>\<close>

text \<open>
  What an agent is built from. The reasoning service and the tools are given per
  iteration, so that they may answer differently each time. \<open>compose\<close> is the prompt
  manager's initial prompt for a query, and \<open>config_max_iterations\<close> is
  \<^verbatim>\<open>self.config["max_iterations"]\<close>.
\<close>

record agent =
  loads :: loads
  chat :: "nat \<Rightarrow> chat"
  tools :: "string \<rightharpoonup> tool"
  compose :: "string \<Rightarrow> string"
  config_max_iterations :: int

record result =
  answer :: json
  steps :: "dict list"
  iterations :: int
  success :: bool

text \<open>
  One pass through the body of the \<^verbatim>\<open>for\<close> loop, up to the test for a final
  answer: the step appended to \<^verbatim>\<open>steps\<close>, the prompt, \<^verbatim>\<open>answer\<close>, and whether the
  test holds.
\<close>

definition base_iteration ::
  "'a agent_scheme \<Rightarrow> string \<Rightarrow> nat \<Rightarrow> string \<Rightarrow> exn + dict \<times> string \<times> json \<times> bool" where
  "base_iteration A query iteration prompt =
     (case call_llm (loads A) (chat A iteration) prompt of
        Inl e \<Rightarrow> Inl e
      | Inr result \<Rightarrow>
          let thought = dict_get result ''thought'' (JStr '''');
              action = dict_get result ''action'' (JStr ''none'');
              action_input = dict_get result ''action_input'' (JStr '''');
              final = dict_get result ''final_answer'' (JStr '''')
          in (case log_thought thought of
                Some e \<Rightarrow> Inl e
              | None \<Rightarrow>
                  if py_truthy action \<and> action \<noteq> JStr ''none''
                  then
                    (case dispatch (tools A) iteration query action action_input of
                       Inl e \<Rightarrow> Inl e
                     | Inr (observation, action_input') \<Rightarrow>
                         Inr (dict_set result ''observation'' (JStr observation),
                              prompt @ ''\<newline>\<newline>Observation: '' @ observation
                                @ ''\<newline>Continue reasoning and respond in JSON format.'',
                              final,
                              py_truthy final \<and> action = JStr ''none''))
                  else Inr (result, prompt, final, py_truthy final \<and> action = JStr ''none'')))"

text \<open>
  The \<^verbatim>\<open>for\<close> loop and what follows it. \<open>remaining\<close> counts the iterations left and
  \<open>made\<close> those made; \<open>last_answer\<close> is the variable \<^verbatim>\<open>answer\<close>, unbound before
  the first pass. The first component of the value is the number of calls of
  \<^verbatim>\<open>_call_llm\<close> made, the second what \<^verbatim>\<open>run\<close> returns or raises.
\<close>

fun base_loop ::
  "'a agent_scheme \<Rightarrow> string \<Rightarrow> int \<Rightarrow> nat \<Rightarrow> nat \<Rightarrow> string \<Rightarrow> dict list \<Rightarrow> json option
    \<Rightarrow> nat \<times> (exn + result)" where
  "base_loop A query max_iter 0 made prompt step_list last_answer =
     (made,
      case last_answer of
        None \<Rightarrow> Inl (Exn UnboundLocalError ''answer'')
      | Some final \<Rightarrow>
          Inr \<lparr>answer = (if py_truthy final then final
                         else JStr ''I couldn't find a complete answer.''),
               steps = step_list, iterations = max_iter, success = False\<rparr>)"
| "base_loop A query max_iter (Suc remaining) made prompt step_list last_answer =
     (case base_iteration A query (Suc made) prompt of
        Inl e \<Rightarrow> (Suc made, Inl e)
      | Inr (step, prompt', final, stop) \<Rightarrow>
          if stop
          then (Suc made,
                Inr \<lparr>answer = final, steps = step_list @ [step],
                     iterations = int (Suc made), success = True\<rparr>)
          else base_loop A query max_iter remaining (Suc made) prompt' (step_list @ [step])
                 (Some final))"

definition effective_max_iter :: "'a agent_scheme \<Rightarrow> int option \<Rightarrow> int" where
  "effective_max_iter A max_iterations =
     (case max_iterations of
        None \<Rightarrow> config_max_iterations A
      | Some n \<Rightarrow> if n \<noteq> 0 then n else config_max_iterations A)"

definition run :: "'a agent_scheme \<Rightarrow> string \<Rightarrow> int option \<Rightarrow> nat \<times> (exn + result)" where
  "run A query max_iterations =
     (let max_iter = effective_max_iter A max_iterations
      in base_loop A query max_iter (nat max_iter) 0 (compose A query) [] None)"

section \<open>The extended controller: \<^verbatim>\<open>AdvancedReactAgent.run\<close>\<close>

text \<open>
  The extended agent adds a verifier, absent or given by what its service answers in
  each iteration, and a memory, absent or the state of a \<^verbatim>\<open>MemoryLayer\<close>, which the
  run threads through. The clock is read when a session starts (twice), when a step is
  recorded and when the session is saved.
\<close>

datatype reading = SessionStamp | SessionStart | StepAt nat | SessionEnd

record adv_agent = agent +
  verifier :: "(nat \<Rightarrow> chat) option"
  clock :: "reading \<Rightarrow> string"

record adv_result = result +
  verification :: "dict option"

text \<open>The test of \<^verbatim>\<open>should_stop\<close>, with the condition the verifier adds.\<close>

definition should_stop :: "bool \<Rightarrow> bool \<Rightarrow> json \<Rightarrow> json \<Rightarrow> dict option \<Rightarrow> bool" where
  "should_stop use_verifier has_verifier final action verdict =
     (let stop = (py_truthy final \<and> action = JStr ''none'')
      in case verdict of
           None \<Rightarrow> stop
         | Some v \<Rightarrow>
             if use_verifier \<and> has_verifier \<and> v \<noteq> []
             then stop \<and> dict_get v ''verdict'' JNull = JStr ''pass''
             else stop)"

text \<open>The block under \<^verbatim>\<open># Verifying if enabled\<close>: the verdict and the prompt after it.\<close>

definition run_verifier ::
  "adv_agent \<Rightarrow> bool \<Rightarrow> nat \<Rightarrow> string \<Rightarrow> json \<Rightarrow> json \<Rightarrow> string \<Rightarrow> string
    \<Rightarrow> dict option \<times> string" where
  "run_verifier A use_verifier iteration query thought final observation prompt =
     (case verifier A of
        None \<Rightarrow> (None, prompt)
      | Some v \<Rightarrow>
          if use_verifier \<and> (py_truthy thought \<or> py_truthy final)
          then
            let verdict = verify (loads A) (v iteration) query
                            (if py_truthy final then final else thought) observation ''''
            in (Some verdict,
                if dict_get verdict ''verdict'' JNull = JStr ''fail''
                then prompt @ ''\<newline>\<newline>Verifier Feedback: ''
                       @ py_str (dict_get verdict ''suggestion'' (JStr ''''))
                       @ ''\<newline>Please refine your reasoning.''
                else prompt)
          else (None, prompt))"

text \<open>The block under \<^verbatim>\<open># Saving to memory\<close>.\<close>

definition record_step ::
  "adv_agent \<Rightarrow> bool \<Rightarrow> memory option \<Rightarrow> nat \<Rightarrow> json \<Rightarrow> json \<Rightarrow> json \<Rightarrow> string \<Rightarrow> json
    \<Rightarrow> dict option \<Rightarrow> memory option" where
  "record_step A use_memory mem iteration thought action action_input observation final verdict =
     (case mem of
        None \<Rightarrow> None
      | Some m \<Rightarrow>
          if use_memory
          then Some (add_step m (int iteration)
                       [(''thought'', thought), (''action'', action),
                        (''action_input'', action_input),
                        (''observation'', JStr observation), (''answer'', final),
                        (''verification'', (case verdict of None \<Rightarrow> JNull | Some v \<Rightarrow> JDict v))]
                       (clock A (StepAt iteration)))
          else Some m)"

record iteration_state =
  step :: dict
  next_prompt :: string
  final_answer :: json
  verdict :: "dict option"
  memory_after :: "memory option"
  stop :: bool

text \<open>One pass through the body of the \<^verbatim>\<open>for\<close> loop, up to \<^verbatim>\<open>if should_stop:\<close>.\<close>

definition adv_iteration ::
  "adv_agent \<Rightarrow> string \<Rightarrow> bool \<Rightarrow> bool \<Rightarrow> nat \<Rightarrow> string \<Rightarrow> memory option
    \<Rightarrow> exn + iteration_state" where
  "adv_iteration A query use_verifier use_memory iteration prompt mem =
     (case call_llm (loads A) (chat A iteration) prompt of
        Inl e \<Rightarrow> Inl e
      | Inr result \<Rightarrow>
          let thought = dict_get result ''thought'' (JStr '''');
              action = dict_get result ''action'' (JStr ''none'');
              action_input = dict_get result ''action_input'' (JStr '''');
              final = dict_get result ''final_answer'' (JStr '''')
          in (case log_thought thought of
               Some e \<Rightarrow> Inl e
             | None \<Rightarrow>
                 (case (if py_truthy action \<and> action \<noteq> JStr ''none''
                        then (case dispatch (tools A) iteration query action action_input of
                                Inl e \<Rightarrow> Inl e
                              | Inr (observation, action_input') \<Rightarrow>
                                  Inr (observation, action_input',
                                       prompt @ ''\<newline>\<newline>Observation: '' @ observation
                                         @ ''\<newline>Continue reasoning.''))
                        else Inr ('''', action_input, prompt)) of
                    Inl e \<Rightarrow> Inl e
                  | Inr (observation, action_input', prompt1) \<Rightarrow>
                      let vp = run_verifier A use_verifier iteration query thought final
                                 observation prompt1
                      in Inr \<lparr>step = result,
                              next_prompt = snd vp,
                              final_answer = final,
                              verdict = fst vp,
                              memory_after =
                                record_step A use_memory mem iteration thought action
                                  action_input' observation final (fst vp),
                              stop = should_stop use_verifier (verifier A \<noteq> None) final action
                                       (fst vp)\<rparr>)))"

text \<open>\<^verbatim>\<open>if use_memory and self.memory: self.memory.save_session()\<close>.\<close>

definition save_memory :: "adv_agent \<Rightarrow> bool \<Rightarrow> memory option \<Rightarrow> memory option" where
  "save_memory A use_memory mem =
     (case mem of
        None \<Rightarrow> None
      | Some m \<Rightarrow> if use_memory then Some (fst (save_session m (clock A SessionEnd))) else Some m)"

text \<open>
  The loop of the extended controller. The value is the number of calls of
  \<^verbatim>\<open>_call_llm\<close> made, the memory as the run leaves it, and what the run returns or
  raises. \<open>prev\<close> holds \<^verbatim>\<open>answer\<close> and \<^verbatim>\<open>verification\<close>, unbound before the first
  pass.
\<close>

fun adv_loop ::
  "adv_agent \<Rightarrow> string \<Rightarrow> bool \<Rightarrow> bool \<Rightarrow> int \<Rightarrow> nat \<Rightarrow> nat \<Rightarrow> string \<Rightarrow> dict list
    \<Rightarrow> (json \<times> dict option) option \<Rightarrow> memory option
    \<Rightarrow> nat \<times> memory option \<times> (exn + adv_result)" where
  "adv_loop A query use_verifier use_memory max_iter 0 made prompt step_list prev mem =
     (case prev of
        None \<Rightarrow> (made, mem, Inl (Exn UnboundLocalError ''answer''))
      | Some (final, v) \<Rightarrow>
          (made, save_memory A use_memory mem,
           Inr \<lparr>answer = (if py_truthy final then final
                          else JStr ''I couldn't find a complete answer.''),
                steps = step_list, iterations = max_iter, success = False,
                verification = v\<rparr>))"
| "adv_loop A query use_verifier use_memory max_iter (Suc remaining) made prompt step_list
     prev mem =
     (case adv_iteration A query use_verifier use_memory (Suc made) prompt mem of
        Inl e \<Rightarrow> (Suc made, mem, Inl e)
      | Inr s \<Rightarrow>
          if stop s
          then (Suc made, save_memory A use_memory (memory_after s),
                Inr \<lparr>answer = final_answer s, steps = step_list @ [step s],
                     iterations = int (Suc made), success = True,
                     verification = verdict s\<rparr>)
          else adv_loop A query use_verifier use_memory max_iter remaining (Suc made)
                 (next_prompt s) (step_list @ [step s])
                 (Some (final_answer s, verdict s)) (memory_after s))"

definition adv_run ::
  "adv_agent \<Rightarrow> memory option \<Rightarrow> string \<Rightarrow> int option \<Rightarrow> bool \<Rightarrow> bool
    \<Rightarrow> nat \<times> memory option \<times> (exn + adv_result)" where
  "adv_run A mem query max_iterations use_verifier use_memory =
     (let max_iter = effective_max_iter A max_iterations;
          mem0 = (case mem of
                    None \<Rightarrow> None
                  | Some m \<Rightarrow>
                      if use_memory
                      then Some (start_session m query (clock A SessionStamp)
                                   (clock A SessionStart))
                      else Some m)
      in adv_loop A query use_verifier use_memory max_iter (nat max_iter) 0
           (compose A query) [] None mem0)"

section \<open>Sample documents\<close>

text \<open>
  The documents of the examples below, and what \<^verbatim>\<open>json.loads\<close> makes of them.
  \<open>sample_loads\<close> is the decoder on these documents; every other text the examples
  hand to it is not JSON, and is answered with a \<^verbatim>\<open>JSONDecodeError\<close>.
\<close>

definition doc_final :: string where
  \<open>doc_final =
     ''{"thought": "arithmetic", "action": "none", "action_input": "", "final_answer": "4"}''\<close>

definition doc_search :: string where
  \<open>doc_search = ''{"thought": "look it up", "action": "search", "action_input": ["a", "b"]}''\<close>

definition doc_observed :: string where
  \<open>doc_observed =
     ''{"thought": "t", "action": "none", "observation": "made up", "final_answer": "42"}''\<close>

definition doc_nested :: string where
  \<open>doc_nested =
     ''{"thought": "t", "action": "search", "action_input": {"x": 1}, "observation": "", "final_answer": ""}''\<close>

definition doc_fail :: string where
  \<open>doc_fail =
     ''{"verdict": "fail", "reason": "unsupported", "suggestion": "cite a source", "confidence": 0.9}''\<close>

definition doc_pass :: string where
  \<open>doc_pass = ''{"verdict": "pass", "reason": "ok", "suggestion": "", "confidence": 0.8}''\<close>

definition sample_loads :: loads where
  "sample_loads s =
     (if s = doc_final
      then Inr [(''thought'', JStr ''arithmetic''), (''action'', JStr ''none''),
                (''action_input'', JStr ''''), (''final_answer'', JStr ''4'')]
      else if s = doc_search
      then Inr [(''thought'', JStr ''look it up''), (''action'', JStr ''search''),
                (''action_input'', JList [JStr ''a'', JStr ''b''])]
      else if s = doc_observed
      then Inr [(''thought'', JStr ''t''), (''action'', JStr ''none''),
                (''observation'', JStr ''made up''), (''final_answer'', JStr ''42'')]
      else if s = doc_fail
      then Inr [(''verdict'', JStr ''fail''), (''reason'', JStr ''unsupported''),
                (''suggestion'', JStr ''cite a source''), (''confidence'', JFloat ''0.9'')]
      else if s = doc_pass
      then Inr [(''verdict'', JStr ''pass''), (''reason'', JStr ''ok''),
                (''suggestion'', JStr ''''), (''confidence'', JFloat ''0.8'')]
      else Inl (Exn JSONDecodeError ''Expecting value''))"

section \<open>The specification's wording, for comparison\<close>

text \<open>
  The candidates that decode, in order: what the specification calls the successfully
  decoded candidates of a response.
\<close>

definition decoded_candidates :: "loads \<Rightarrow> string list \<Rightarrow> dict list" where
  "decoded_candidates ld blocks =
     List.map_filter (\<lambda>b. case ld b of Inl e \<Rightarrow> None | Inr d \<Rightarrow> Some d) blocks"

text \<open>
  The specification's fallback answer, from its words: the raw text with leading
  determiner words and trailing punctuation stripped, or a fixed placeholder if the raw
  text is empty. The counter bounds the number of words dropped by the length of the text.
\<close>

definition is_determiner :: "string \<Rightarrow> bool" where
  "is_determiner w =
     (w \<in> set [''a'', ''A'', ''an'', ''An'', ''AN'', ''the'', ''The'', ''THE''])"

fun drop_determiners :: "nat \<Rightarrow> string \<Rightarrow> string" where
  "drop_determiners 0 s = s"
| "drop_determiners (Suc n) s =
     (let s' = dropWhile py_isspace s;
          w = takeWhile (\<lambda>c. \<not> py_isspace c) s'
      in if is_determiner w then drop_determiners n (drop (length w) s') else s')"

definition is_punctuation :: "char \<Rightarrow> bool" where
  "is_punctuation c = (c \<in> set ''.,;:!?'')"

definition spec_fallback_answer :: "string \<Rightarrow> string" where
  "spec_fallback_answer raw =
     (let t = py_strip raw
      in if t = [] then ''No output from model''
         else rev (dropWhile is_punctuation (rev (drop_determiners (length t) t))))"

section \<open>Conditions on a parsed step\<close>

text \<open>
  The conditions the statements below put on what the parser hands to a controller.
  A step is final when its action is the sentinel and its answer is non-empty, the test
  both controllers make; it invokes a tool when the controllers dispatch on its action.
  The body of the loop runs through without raising when the thought can be logged and
  the action, if dispatched on, can be looked up in the registry.
\<close>

definition step_action :: "dict \<Rightarrow> json" where
  "step_action st = dict_get st ''action'' (JStr ''none'')"

definition step_final_answer :: "dict \<Rightarrow> json" where
  "step_final_answer st = dict_get st ''final_answer'' (JStr '''')"

definition step_observation :: "dict \<Rightarrow> json" where
  "step_observation st = dict_get st ''observation'' (JStr '''')"

definition is_final :: "dict \<Rightarrow> bool" where
  "is_final st = (py_truthy (step_final_answer st) \<and> step_action st = JStr ''none'')"

definition invokes_tool :: "dict \<Rightarrow> bool" where
  "invokes_tool st = (py_truthy (step_action st) \<and> step_action st \<noteq> JStr ''none'')"

fun hashable :: "json \<Rightarrow> bool" where
  "hashable (JList xs) = False"
| "hashable (JDict kvs) = False"
| "hashable v = True"

definition step_ok :: "dict \<Rightarrow> bool" where
  "step_ok st =
     (log_thought (dict_get st ''thought'' (JStr '''')) = None
      \<and> (if invokes_tool st then hashable (step_action st) else True))"

section \<open>Sample agents\<close>

definition found_tool :: tool where
  "found_tool iteration input = Inr (''found: '' @ input)"

definition timeout_tool :: tool where
  "timeout_tool iteration input = Inl (Exn OtherException ''timeout'')"

definition final_agent :: agent where
  "final_agent =
     \<lparr>loads = sample_loads, chat = (\<lambda>iteration prompt. Inr doc_final),
      tools = (\<lambda>name. if name = ''search'' then Some found_tool else None),
      compose = (\<lambda>query. ''Question: '' @ query), config_max_iterations = 3\<rparr>"

definition search_agent :: agent where
  "search_agent =
     \<lparr>loads = sample_loads, chat = (\<lambda>iteration prompt. Inr doc_search),
      tools = (\<lambda>name. if name = ''search'' then Some found_tool else None),
      compose = (\<lambda>query. ''Question: '' @ query), config_max_iterations = 3\<rparr>"

definition sample_clock :: "reading \<Rightarrow> string" where
  "sample_clock r =
     (case r of
        SessionStamp \<Rightarrow> ''20240101_000000''
      | SessionStart \<Rightarrow> ''2024-01-01T00:00:00''
      | StepAt n \<Rightarrow> ''2024-01-01T00:00:01''
      | SessionEnd \<Rightarrow> ''2024-01-01T00:00:02'')"

definition sample_memory :: memory where
  "sample_memory = \<lparr>output_dir = ''memory'', current_session = None, history = []\<rparr>"

definition timeout_agent :: agent where
  "timeout_agent =
     \<lparr>loads = sample_loads, chat = (\<lambda>iteration prompt. Inr doc_search),
      tools = (\<lambda>name. if name = ''search'' then Some timeout_tool else None),
      compose = (\<lambda>query. ''Question: '' @ query), config_max_iterations = 3\<rparr>"

definition toolless_agent :: agent where
  "toolless_agent =
     \<lparr>loads = sample_loads, chat = (\<lambda>iteration prompt. Inr doc_search),
      tools = (\<lambda>name. None),
      compose = (\<lambda>query. ''Question: '' @ query), config_max_iterations = 3\<rparr>"

text \<open>The extended agents: the same, with a verifier that always answers \<open>doc_fail\<close>.\<close>

definition with_failing_verifier :: "agent \<Rightarrow> adv_agent" where
  "with_failing_verifier A =
     \<lparr>loads = loads A, chat = chat A, tools = tools A, compose = compose A,
      config_max_iterations = config_max_iterations A,
      verifier = Some (\<lambda>iteration prompt. Inr doc_fail), clock = sample_clock\<rparr>"

definition with_passing_verifier :: "agent \<Rightarrow> adv_agent" where
  "with_passing_verifier A =
     \<lparr>loads = loads A, chat = chat A, tools = tools A, compose = compose A,
      config_max_iterations = config_max_iterations A,
      verifier = Some (\<lambda>iteration prompt. Inr doc_pass), clock = sample_clock\<rparr>"

section \<open>Further documents, decoders and agents\<close>

text \<open>
  The first candidate, if any, on which the decoder raises something other than a
  \<^verbatim>\<open>JSONDecodeError\<close>: the exception that ends the loop over the candidates.
\<close>

fun first_other_error :: "loads \<Rightarrow> string list \<Rightarrow> exn option" where
  "first_other_error ld [] = None"
| "first_other_error ld (block # blocks) =
     (case ld block of
        Inr parsed \<Rightarrow> first_other_error ld blocks
      | Inl e \<Rightarrow>
          if cls e = JSONDecodeError then first_other_error ld blocks else Some e)"

text \<open>
  Documents whose fields are not of the types of the step schema, and the empty object.
  \<open>edge_loads\<close> is the decoder on them and on the documents above.
\<close>

definition doc_numeric_thought :: string where
  \<open>doc_numeric_thought = ''{"thought": 7, "action": "search", "action_input": "x"}''\<close>

definition doc_list_action :: string where
  \<open>doc_list_action = ''{"thought": "t", "action": ["search"]}''\<close>

definition doc_numeric_final :: string where
  \<open>doc_numeric_final =
     ''{"thought": 7, "action": "none", "action_input": "", "final_answer": "4"}''\<close>

definition doc_empty :: string where
  "doc_empty = ''{}''"

definition edge_loads :: loads where
  "edge_loads s =
     (if s = doc_numeric_thought
      then Inr [(''thought'', JInt 7), (''action'', JStr ''search''),
                (''action_input'', JStr ''x'')]
      else if s = doc_list_action
      then Inr [(''thought'', JStr ''t''), (''action'', JList [JStr ''search''])]
      else if s = doc_numeric_final
      then Inr [(''thought'', JInt 7), (''action'', JStr ''none''),
                (''action_input'', JStr ''''), (''final_answer'', JStr ''4'')]
      else if s = doc_empty then Inr []
      else sample_loads s)"

text \<open>
  The decoder recurses on nested arrays and raises \<^verbatim>\<open>RecursionError\<close>, which is no
  \<^verbatim>\<open>JSONDecodeError\<close>, when the interpreter's recursion limit is reached.
  \<open>shallow_loads\<close> is the decoder in an interpreter that the five arrays of
  \<open>doc_deep\<close> take to its limit.
\<close>

definition doc_deep :: string where
  \<open>doc_deep = ''{"a": [[[[[}''\<close>

definition shallow_loads :: loads where
  "shallow_loads s =
     (if s = doc_deep
      then Inl (Exn OtherException
                  ''maximum recursion depth exceeded while decoding a JSON array from a unicode string'')
      else sample_loads s)"

text \<open>
  An agent whose reasoning service answers every request with the same text, and an
  extended agent whose verifier service does.
\<close>

definition stub_agent :: "string \<Rightarrow> agent" where
  "stub_agent response =
     \<lparr>loads = edge_loads, chat = (\<lambda>iteration prompt. Inr response),
      tools = (\<lambda>name. if name = ''search'' then Some found_tool else None),
      compose = (\<lambda>query. ''Question: '' @ query), config_max_iterations = 3\<rparr>"

definition with_verifier_reply :: "string \<Rightarrow> agent \<Rightarrow> adv_agent" where
  "with_verifier_reply reply A =
     \<lparr>loads = loads A, chat = chat A, tools = tools A, compose = compose A,
      config_max_iterations = config_max_iterations A,
      verifier = Some (\<lambda>iteration prompt. Inr reply), clock = sample_clock\<rparr>"

section \<open>Properties of the response parser\<close>

lemma map_of_dict_set_same: "map_of (dict_set d k v) k = Some v"
  by (induction d) auto

lemma map_of_dict_set_other: "k' \<noteq> k \<Longrightarrow> map_of (dict_set d k v) k' = map_of d k'"
  by (induction d) auto

lemma dict_get_dict_set_same: "dict_get (dict_set d k v) k dflt = v"
  by (simp add: dict_get_def map_of_dict_set_same)

lemma dict_get_dict_set_other: "k' \<noteq> k \<Longrightarrow> dict_get (dict_set d k v) k' dflt = dict_get d k' dflt"
  by (simp add: dict_get_def map_of_dict_set_other)

lemma step_observation_blank: "step_observation (blank_observation d) = JStr ''''"
  by (auto simp: step_observation_def blank_observation_def dict_get_def dict_has_def
      map_of_dict_set_same split: option.splits)

lemma parse_blocks_undecodable:
  "\<forall>b \<in> set blocks. \<exists>m. ld b = Inl (Exn JSONDecodeError m) \<Longrightarrow>
   parse_blocks ld blocks acc = Inr acc"
  by (induction blocks arbitrary: acc) auto

text \<open>
  The loop over the candidates keeps exactly the candidates that decode, in order, each
  with a supplied observation blanked, as long as the decoder raises nothing but
  \<^verbatim>\<open>JSONDecodeError\<close>.
\<close>

lemma parse_blocks_decoded:
  "\<forall>b \<in> set blocks. \<forall>e. ld b = Inl e \<longrightarrow> cls e = JSONDecodeError \<Longrightarrow>
   parse_blocks ld blocks acc = Inr (acc @ map blank_observation (decoded_candidates ld blocks))"
proof (induction blocks arbitrary: acc)
  case Nil
  then show ?case by (simp add: decoded_candidates_def)
next
  case (Cons b bs)
  then show ?case
    by (cases "ld b") (auto simp: decoded_candidates_def)
qed

text \<open>
  When some candidate decodes, the parser returns the last candidate that decoded, and
  the observation read from the step it returns is empty whatever the model wrote there.
\<close>

lemma parse_content_last_decoded:
  assumes "\<forall>b \<in> set (findall_braces (clean_content raw)).
             \<forall>e. ld b = Inl e \<longrightarrow> cls e = JSONDecodeError"
    and "decoded_candidates ld (findall_braces (clean_content raw)) \<noteq> []"
  shows "parse_content ld raw
           = blank_observation (last (decoded_candidates ld (findall_braces (clean_content raw))))"
    and "step_observation (parse_content ld raw) = JStr ''''"
proof -
  let ?ds = "decoded_candidates ld (findall_braces (clean_content raw))"
  have "parse_blocks ld (findall_braces (clean_content raw)) [] = Inr (map blank_observation ?ds)"
    using parse_blocks_decoded [OF assms(1), of "[]"] by simp
  then show "parse_content ld raw = blank_observation (last ?ds)"
    using assms(2) by (simp add: parse_content_def last_map)
  then show "step_observation (parse_content ld raw) = JStr ''''"
    by (simp add: step_observation_blank)
qed

text \<open>
  A candidate is cut at the first closing brace: of a text that starts with an object
  holding a nested object, the only candidate ends inside the outer object.
\<close>

lemma findall_braces_doc_nested:
  \<open>findall_braces doc_nested
     = [''{"thought": "t", "action": "search", "action_input": {"x": 1}'']\<close>
  by (simp add: findall_braces_def doc_nested_def)

lemmas sample_docs =
  doc_final_def doc_search_def doc_observed_def doc_nested_def doc_fail_def doc_pass_def

lemmas parser_defs =
  call_llm_def parse_content_def clean_content_def py_strip_def py_isspace_def py_replace_def
  findall_braces_def fallback_step_def error_step_def blank_observation_def dict_has_def

lemma call_llm_doc_observed:
  "call_llm sample_loads (\<lambda>p. Inr doc_observed) prompt
     = Inr [(''thought'', JStr ''t''), (''action'', JStr ''none''),
            (''observation'', JStr ''''), (''final_answer'', JStr ''42'')]"
  by (simp add: parser_defs sample_loads_def sample_docs)

text \<open>
  Claim C1. The parser is to return the last candidate that decodes, with its
  observation emptied, and in particular the one well-formed object of a response, also
  when its \<^verbatim>\<open>action_input\<close> is a mapping. On the response \<open>doc_nested\<close>, one
  well-formed object of the step schema whose \<^verbatim>\<open>action_input\<close> is the mapping
  \<^verbatim>\<open>{"x": 1}\<close>, the parser finds no candidate that decodes and returns the degenerate
  step: the action \<^verbatim>\<open>search\<close> and its input are lost, and the whole response becomes the
  final answer.
\<close>

theorem call_llm_nested_action_input:
  "call_llm sample_loads (\<lambda>p. Inr doc_nested) ''prompt''
     = Inr [(''thought'', JStr ''''), (''action'', JStr ''none''), (''action_input'', JStr ''''),
            (''observation'', JStr ''''), (''final_answer'', JStr doc_nested)]"
  by (simp add: parser_defs sample_loads_def sample_docs)

text \<open>
  Claim C2, as the specification words it: without a candidate that decodes, the final
  answer of the degenerate step is the raw text with leading determiner words and
  trailing punctuation stripped. The parser strips neither: for the response
  \<^verbatim>\<open>The answer is 4.\<close> its final answer is the response itself, not \<^verbatim>\<open>answer is 4\<close>.
\<close>

theorem fallback_answer_counterexample:
  "dict_get (parse_content sample_loads ''The answer is 4.'') ''final_answer'' JNull
     \<noteq> JStr (spec_fallback_answer ''The answer is 4.'')"
  by (simp add: parser_defs dict_get_def spec_fallback_answer_def is_determiner_def
      is_punctuation_def)

text \<open>
  The loop over the candidates ends at the first exception that is no
  \<^verbatim>\<open>JSONDecodeError\<close>, and otherwise collects the candidates that decode.
\<close>

lemma parse_blocks_first_other_error:
  "parse_blocks ld blocks acc =
     (case first_other_error ld blocks of
        Some e \<Rightarrow> Inl e
      | None \<Rightarrow> Inr (acc @ map blank_observation (decoded_candidates ld blocks)))"
proof (induction blocks arbitrary: acc)
  case Nil
  then show ?case by (simp add: decoded_candidates_def)
next
  case (Cons b bs)
  then show ?case
    by (cases "ld b") (auto simp: decoded_candidates_def split: option.splits)
qed

text \<open>
  Claim C2, amended. When the service answers with a text none of whose candidates
  decodes, \<^verbatim>\<open>_call_llm\<close> raises nothing and returns a degenerate step whose action
  is \<^verbatim>\<open>none\<close> and whose thought and action input are empty. If the decoder
  rejected every candidate with a \<^verbatim>\<open>JSONDecodeError\<close>, or there is no candidate,
  the observation is empty and the final answer is the text with the surrounding white
  space stripped and every \<^verbatim>\<open></think>\<close> removed, or the placeholder
  \<^verbatim>\<open>No output from model\<close> when nothing is left of the text. If the decoder raised
  another exception on a candidate (a \<^verbatim>\<open>RecursionError\<close> on arrays nested too
  deep, a \<^verbatim>\<open>ValueError\<close> on an integer of too many digits), the final answer is
  empty and the observation is \<^verbatim>\<open>Error: \<close> followed by the message of the first
  such exception.
\<close>

theorem call_llm_fallback:
  assumes "ch prompt = Inr raw"
    and "decoded_candidates ld (findall_braces (clean_content raw)) = []"
  shows "call_llm ld ch prompt =
           Inr (case first_other_error ld (findall_braces (clean_content raw)) of
                  None \<Rightarrow>
                    [(''thought'', JStr ''''), (''action'', JStr ''none''),
                     (''action_input'', JStr ''''), (''observation'', JStr ''''),
                     (''final_answer'',
                      JStr (if clean_content raw = [] then ''No output from model''
                            else clean_content raw))]
                | Some e \<Rightarrow>
                    [(''thought'', JStr ''''), (''action'', JStr ''none''),
                     (''action_input'', JStr ''''),
                     (''observation'', JStr (''Error: '' @ msg e)),
                     (''final_answer'', JStr '''')])"
proof (cases "first_other_error ld (findall_braces (clean_content raw))")
  case None
  then have "parse_blocks ld (findall_braces (clean_content raw)) [] = Inr []"
    using assms(2) by (simp add: parse_blocks_first_other_error)
  then have "parse_content ld raw = fallback_step (clean_content raw)"
    by (simp add: parse_content_def)
  then show ?thesis
    using assms(1) None by (simp add: call_llm_def fallback_step_def)
next
  case (Some e)
  then have "parse_blocks ld (findall_braces (clean_content raw)) [] = Inl e"
    by (simp add: parse_blocks_first_other_error)
  then have "parse_content ld raw = error_step e"
    by (simp add: parse_content_def)
  then show ?thesis
    using assms(1) Some by (simp add: call_llm_def error_step_def)
qed

theorem call_llm_fallback_witness:
  "call_llm sample_loads (\<lambda>p. Inr '' </think>I think {maybe} 4 '') ''prompt'' =
     Inr [(''thought'', JStr ''''), (''action'', JStr ''none''),
          (''action_input'', JStr ''''), (''observation'', JStr ''''),
          (''final_answer'', JStr ''I think {maybe} 4'')]
   \<and> call_llm sample_loads (\<lambda>p. Inr ''   '') ''prompt'' =
     Inr [(''thought'', JStr ''''), (''action'', JStr ''none''),
          (''action_input'', JStr ''''), (''observation'', JStr ''''),
          (''final_answer'', JStr ''No output from model'')]
   \<and> call_llm shallow_loads (\<lambda>p. Inr doc_deep) ''prompt'' =
     Inr [(''thought'', JStr ''''), (''action'', JStr ''none''),
          (''action_input'', JStr ''''),
          (''observation'', JStr ''Error: maximum recursion depth exceeded while decoding a JSON array from a unicode string''),
          (''final_answer'', JStr '''')]"
proof (intro conjI)
  have c: "clean_content '' </think>I think {maybe} 4 '' = ''I think {maybe} 4''"
    by (simp add: clean_content_def py_strip_def py_isspace_def py_replace_def)
  have b: "findall_braces ''I think {maybe} 4'' = [''{maybe}'']"
    by (simp add: findall_braces_def)
  have l: "sample_loads ''{maybe}'' = Inl (Exn JSONDecodeError ''Expecting value'')"
    by (simp add: sample_loads_def sample_docs)
  have h: "decoded_candidates sample_loads
             (findall_braces (clean_content '' </think>I think {maybe} 4 '')) = []"
    by (simp add: c b l decoded_candidates_def)
  show "call_llm sample_loads (\<lambda>p. Inr '' </think>I think {maybe} 4 '') ''prompt'' =
     Inr [(''thought'', JStr ''''), (''action'', JStr ''none''),
          (''action_input'', JStr ''''), (''observation'', JStr ''''),
          (''final_answer'', JStr ''I think {maybe} 4'')]"
    using call_llm_fallback [of "\<lambda>p. Inr '' </think>I think {maybe} 4 ''" "''prompt''"
        "'' </think>I think {maybe} 4 ''" sample_loads, OF refl h]
    by (simp add: c b l)
  have c2: "clean_content ''   '' = []"
    by (simp add: clean_content_def py_strip_def py_isspace_def py_replace_def)
  have h2: "decoded_candidates sample_loads (findall_braces (clean_content ''   '')) = []"
    by (simp add: c2 findall_braces_def decoded_candidates_def)
  show "call_llm sample_loads (\<lambda>p. Inr ''   '') ''prompt'' =
     Inr [(''thought'', JStr ''''), (''action'', JStr ''none''),
          (''action_input'', JStr ''''), (''observation'', JStr ''''),
          (''final_answer'', JStr ''No output from model'')]"
    using call_llm_fallback [of "\<lambda>p. Inr ''   ''" "''prompt''" "''   ''" sample_loads,
        OF refl h2]
    by (simp add: c2 findall_braces_def)
  have c3: "clean_content doc_deep = doc_deep"
    by (simp add: clean_content_def py_strip_def py_isspace_def py_replace_def doc_deep_def)
  have b3: "findall_braces doc_deep = [doc_deep]"
    by (simp add: findall_braces_def doc_deep_def)
  have l3: "shallow_loads doc_deep = Inl (Exn OtherException
         ''maximum recursion depth exceeded while decoding a JSON array from a unicode string'')"
    by (simp add: shallow_loads_def)
  have h3: "decoded_candidates shallow_loads (findall_braces (clean_content doc_deep)) = []"
    by (simp add: c3 b3 l3 decoded_candidates_def)
  show "call_llm shallow_loads (\<lambda>p. Inr doc_deep) ''prompt'' =
     Inr [(''thought'', JStr ''''), (''action'', JStr ''none''),
          (''action_input'', JStr ''''),
          (''observation'', JStr ''Error: maximum recursion depth exceeded while decoding a JSON array from a unicode string''),
          (''final_answer'', JStr '''')]"
    using call_llm_fallback [of "\<lambda>p. Inr doc_deep" "''prompt''" doc_deep shallow_loads,
        OF refl h3]
    by (simp add: c3 b3 l3)
qed

section \<open>The base controller's loop\<close>

lemma dispatch_hashable:
  "hashable a \<Longrightarrow> \<exists>ob ai. dispatch reg i q a x = Inr (ob, ai)"
  by (cases a) (auto simp: dispatch_def split: option.splits sum.splits)

lemma base_iteration_no_tool:
  assumes "call_llm (loads A) (chat A i) p = Inr st"
    and "log_thought (dict_get st ''thought'' (JStr '''')) = None"
    and "\<not> invokes_tool st"
  shows "base_iteration A q i p = Inr (st, p, step_final_answer st, is_final st)"
  using assms
  by (auto simp: base_iteration_def Let_def invokes_tool_def step_action_def
      step_final_answer_def is_final_def)

lemma base_iteration_tool:
  assumes "call_llm (loads A) (chat A i) p = Inr st"
    and "log_thought (dict_get st ''thought'' (JStr '''')) = None"
    and "invokes_tool st"
    and "dispatch (tools A) i q (step_action st) (dict_get st ''action_input'' (JStr ''''))
           = Inr (ob, ai)"
  shows "base_iteration A q i p =
           Inr (dict_set st ''observation'' (JStr ob),
                p @ ''\<newline>\<newline>Observation: '' @ ob
                  @ ''\<newline>Continue reasoning and respond in JSON format.'',
                step_final_answer st, False)"
  using assms
  by (auto simp: base_iteration_def Let_def invokes_tool_def step_action_def
      step_final_answer_def)

lemma invokes_tool_not_final: "invokes_tool st \<Longrightarrow> \<not> is_final st"
  by (simp add: invokes_tool_def is_final_def)

lemma base_iteration_ok:
  assumes "call_llm (loads A) (chat A i) p = Inr st" and "step_ok st"
  shows "\<exists>st' p'. base_iteration A q i p = Inr (st', p', step_final_answer st, is_final st)"
proof (cases "invokes_tool st")
  case False
  then show ?thesis
    using assms base_iteration_no_tool [of A i p st q] by (simp add: step_ok_def)
next
  case True
  then have "hashable (step_action st)"
    using assms(2) by (simp add: step_ok_def)
  then obtain ob ai where
    "dispatch (tools A) i q (step_action st) (dict_get st ''action_input'' (JStr '''')) = Inr (ob, ai)"
    using dispatch_hashable by blast
  then show ?thesis
    using assms True base_iteration_tool [of A i p st q ob ai] invokes_tool_not_final [of st]
    by (simp add: step_ok_def)
qed

lemma base_loop_calls_le: "fst (base_loop A q mi k made p ss la) \<le> made + k"
proof (induction k arbitrary: made p ss la)
  case 0
  then show ?case by simp
next
  case (Suc k)
  show ?case
  proof (cases "base_iteration A q (Suc made) p")
    case (Inl e)
    then show ?thesis by simp
  next
    case (Inr out)
    obtain st' p' f b where out: "out = (st', p', f, b)" by (cases out) auto
    show ?thesis
      using Inr out Suc.IH [of "Suc made" p' "ss @ [st']" "Some f"] by simp
  qed
qed

lemma base_loop_never_final:
  assumes "\<forall>j p. \<exists>st. call_llm (loads A) (chat A j) p = Inr st \<and> step_ok st \<and> \<not> is_final st"
    and "0 < k \<or> la \<noteq> None"
  shows "\<exists>r. base_loop A q mi k made p ss la = (made + k, Inr r) \<and> \<not> success r
           \<and> iterations r = mi"
  using assms(2)
proof (induction k arbitrary: made p ss la)
  case 0
  then show ?case by auto
next
  case (Suc k)
  obtain st where st: "call_llm (loads A) (chat A (Suc made)) p = Inr st" "step_ok st"
    "\<not> is_final st"
    using assms(1) by blast
  obtain st' p' where it:
    "base_iteration A q (Suc made) p = Inr (st', p', step_final_answer st, False)"
    using base_iteration_ok [OF st(1,2), of q] st(3) by auto
  show ?case
    using it Suc.IH [of "Some (step_final_answer st)" "Suc made" p' "ss @ [st']"] by simp
qed

lemma base_loop_first_final:
  assumes "\<forall>j p. made < j \<and> j < i \<longrightarrow>
             (\<exists>st. call_llm (loads A) (chat A j) p = Inr st \<and> step_ok st \<and> \<not> is_final st)"
    and "\<forall>p. \<exists>st. call_llm (loads A) (chat A i) p = Inr st \<and> step_ok st \<and> is_final st"
    and "made < i" and "i \<le> made + k"
  shows "\<exists>r st p'. base_loop A q mi k made p ss la = (i, Inr r) \<and> success r
           \<and> iterations r = int i
           \<and> call_llm (loads A) (chat A i) p' = Inr st \<and> answer r = step_final_answer st"
  using assms(1,3,4)
proof (induction k arbitrary: made p ss la)
  case 0
  then show ?case by simp
next
  case (Suc k)
  show ?case
  proof (cases "Suc made = i")
    case True
    obtain st where st: "call_llm (loads A) (chat A i) p = Inr st" "step_ok st" "is_final st"
      using assms(2) by blast
    obtain st' p' where it:
      "base_iteration A q i p = Inr (st', p', step_final_answer st, True)"
      using base_iteration_ok [OF st(1,2), of q] st(3) by auto
    show ?thesis
      using it True st(1) by auto
  next
    case False
    then have lt: "Suc made < i" using Suc.prems by simp
    obtain st where st: "call_llm (loads A) (chat A (Suc made)) p = Inr st" "step_ok st"
      "\<not> is_final st"
      using Suc.prems(1) lt by blast
    obtain st' p' where it:
      "base_iteration A q (Suc made) p = Inr (st', p', step_final_answer st, False)"
      using base_iteration_ok [OF st(1,2), of q] st(3) by auto
    have "\<forall>j p. Suc made < j \<and> j < i \<longrightarrow>
            (\<exists>st. call_llm (loads A) (chat A j) p = Inr st \<and> step_ok st \<and> \<not> is_final st)"
      using Suc.prems(1) by auto
    then show ?thesis
      using it Suc.IH [of "Suc made" p' "ss @ [st']" "Some (step_final_answer st)"] lt Suc.prems
      by simp
  qed
qed

section \<open>The extended controller's loop\<close>

lemma run_verifier_off:
  "\<not> uv \<or> verifier B = None \<Longrightarrow> run_verifier B uv i q th f ob p = (None, p)"
  by (auto simp: run_verifier_def split: option.splits)

lemma should_stop_None: "should_stop uv hv f a None = (py_truthy f \<and> a = JStr ''none'')"
  by (simp add: should_stop_def)

lemma should_stop_imp: "should_stop uv hv f a vd \<Longrightarrow> py_truthy f \<and> a = JStr ''none''"
  by (auto simp: should_stop_def Let_def split: option.splits if_splits)

lemma adv_iteration_no_tool:
  assumes "call_llm (loads B) (chat B i) p = Inr st"
    and "log_thought (dict_get st ''thought'' (JStr '''')) = None"
    and "\<not> invokes_tool st"
  shows "adv_iteration B q uv um i p m =
           Inr \<lparr>step = st,
                next_prompt = snd (run_verifier B uv i q (dict_get st ''thought'' (JStr ''''))
                                     (step_final_answer st) '''' p),
                final_answer = step_final_answer st,
                verdict = fst (run_verifier B uv i q (dict_get st ''thought'' (JStr ''''))
                                 (step_final_answer st) '''' p),
                memory_after =
                  record_step B um m i (dict_get st ''thought'' (JStr '''')) (step_action st)
                    (dict_get st ''action_input'' (JStr '''')) '''' (step_final_answer st)
                    (fst (run_verifier B uv i q (dict_get st ''thought'' (JStr ''''))
                            (step_final_answer st) '''' p)),
                stop = should_stop uv (verifier B \<noteq> None) (step_final_answer st)
                         (step_action st)
                         (fst (run_verifier B uv i q (dict_get st ''thought'' (JStr ''''))
                                 (step_final_answer st) '''' p))\<rparr>"
  using assms
  by (auto simp: adv_iteration_def Let_def invokes_tool_def step_action_def
      step_final_answer_def)

lemma adv_iteration_tool:
  assumes "call_llm (loads B) (chat B i) p = Inr st"
    and "log_thought (dict_get st ''thought'' (JStr '''')) = None"
    and "invokes_tool st"
    and "dispatch (tools B) i q (step_action st) (dict_get st ''action_input'' (JStr ''''))
           = Inr (ob, ai)"
  shows "adv_iteration B q uv um i p m =
           Inr \<lparr>step = st,
                next_prompt =
                  snd (run_verifier B uv i q (dict_get st ''thought'' (JStr ''''))
                         (step_final_answer st) ob
                         (p @ ''\<newline>\<newline>Observation: '' @ ob @ ''\<newline>Continue reasoning.'')),
                final_answer = step_final_answer st,
                verdict =
                  fst (run_verifier B uv i q (dict_get st ''thought'' (JStr ''''))
                         (step_final_answer st) ob
                         (p @ ''\<newline>\<newline>Observation: '' @ ob @ ''\<newline>Continue reasoning.'')),
                memory_after =
                  record_step B um m i (dict_get st ''thought'' (JStr '''')) (step_action st) ai ob
                    (step_final_answer st)
                    (fst (run_verifier B uv i q (dict_get st ''thought'' (JStr ''''))
                            (step_final_answer st) ob
                            (p @ ''\<newline>\<newline>Observation: '' @ ob
                               @ ''\<newline>Continue reasoning.''))),
                stop = should_stop uv (verifier B \<noteq> None) (step_final_answer st)
                         (step_action st)
                         (fst (run_verifier B uv i q (dict_get st ''thought'' (JStr ''''))
                                 (step_final_answer st) ob
                                 (p @ ''\<newline>\<newline>Observation: '' @ ob
                                    @ ''\<newline>Continue reasoning.'')))\<rparr>"
  using assms
  by (auto simp: adv_iteration_def Let_def invokes_tool_def step_action_def
      step_final_answer_def)

text \<open>What a pass of the extended loop returns is decided by the parsed step.\<close>

lemma adv_iteration_ok:
  assumes "call_llm (loads B) (chat B i) p = Inr st" and "step_ok st"
  shows "\<exists>s. adv_iteration B q uv um i p m = Inr s \<and> step s = st
           \<and> final_answer s = step_final_answer st
           \<and> (stop s \<longrightarrow> is_final st)
           \<and> (\<not> uv \<or> verifier B = None \<longrightarrow> stop s = is_final st)"
proof (cases "invokes_tool st")
  case False
  have lg: "log_thought (dict_get st ''thought'' (JStr '''')) = None"
    using assms(2) by (simp add: step_ok_def)
  show ?thesis
    unfolding adv_iteration_no_tool [OF assms(1) lg False]
    using should_stop_imp
    by (auto simp: is_final_def run_verifier_off should_stop_None)
next
  case True
  have lg: "log_thought (dict_get st ''thought'' (JStr '''')) = None"
    using assms(2) by (simp add: step_ok_def)
  have "hashable (step_action st)"
    using assms(2) True by (simp add: step_ok_def)
  then obtain ob ai where
    d: "dispatch (tools B) i q (step_action st) (dict_get st ''action_input'' (JStr '''')) = Inr (ob, ai)"
    using dispatch_hashable by blast
  show ?thesis
    unfolding adv_iteration_tool [OF assms(1) lg True d]
    using should_stop_imp
    by (auto simp: is_final_def run_verifier_off should_stop_None)
qed

lemma adv_loop_calls_le: "fst (adv_loop B q uv um mi k made p ss prev m) \<le> made + k"
proof (induction k arbitrary: made p ss prev m)
  case 0
  then show ?case by (simp split: option.splits prod.splits)
next
  case (Suc k)
  show ?case
  proof (cases "adv_iteration B q uv um (Suc made) p m")
    case (Inl e)
    then show ?thesis by simp
  next
    case (Inr s)
    show ?thesis
      using Inr Suc.IH [of "Suc made" "next_prompt s" "ss @ [step s]"
          "Some (final_answer s, verdict s)" "memory_after s"]
      by simp
  qed
qed

lemma adv_loop_never_stop:
  assumes "\<forall>j p m. \<exists>s. adv_iteration B q uv um j p m = Inr s \<and> \<not> stop s"
    and "0 < k \<or> prev \<noteq> None"
  shows "\<exists>r m'. adv_loop B q uv um mi k made p ss prev m = (made + k, m', Inr r)
           \<and> \<not> success r \<and> iterations r = mi"
  using assms(2)
proof (induction k arbitrary: made p ss prev m)
  case 0
  then show ?case by auto
next
  case (Suc k)
  obtain s where s: "adv_iteration B q uv um (Suc made) p m = Inr s" "\<not> stop s"
    using assms(1) by blast
  show ?case
    using s Suc.IH [of "Some (final_answer s, verdict s)" "Suc made" "next_prompt s"
        "ss @ [step s]" "memory_after s"]
    by simp
qed

lemma adv_loop_first_stop:
  assumes "\<forall>j p m. made < j \<and> j < i \<longrightarrow>
             (\<exists>s. adv_iteration B q uv um j p m = Inr s \<and> \<not> stop s)"
    and "\<forall>p m. \<exists>s. adv_iteration B q uv um i p m = Inr s \<and> stop s"
    and "made < i" and "i \<le> made + k"
  shows "\<exists>r m' s p' m0. adv_loop B q uv um mi k made p ss prev m = (i, m', Inr r)
           \<and> success r \<and> iterations r = int i
           \<and> adv_iteration B q uv um i p' m0 = Inr s \<and> stop s
           \<and> answer r = final_answer s \<and> verification r = verdict s"
  using assms(1,3,4)
proof (induction k arbitrary: made p ss prev m)
  case 0
  then show ?case by simp
next
  case (Suc k)
  show ?case
  proof (cases "Suc made = i")
    case True
    obtain s where s: "adv_iteration B q uv um i p m = Inr s" "stop s"
      using assms(2) by blast
    show ?thesis
      using s True by auto
  next
    case False
    then have lt: "Suc made < i" using Suc.prems by simp
    obtain s where s: "adv_iteration B q uv um (Suc made) p m = Inr s" "\<not> stop s"
      using Suc.prems(1) lt by blast
    have "\<forall>j p m. Suc made < j \<and> j < i \<longrightarrow>
            (\<exists>s. adv_iteration B q uv um j p m = Inr s \<and> \<not> stop s)"
      using Suc.prems(1) by auto
    then show ?thesis
      using s Suc.IH [of "Suc made" "next_prompt s" "ss @ [step s]"
          "Some (final_answer s, verdict s)" "memory_after s"] lt Suc.prems
      by simp
  qed
qed

text \<open>A run that ends in success ended in a pass of the loop whose stop test held.\<close>

lemma adv_loop_success:
  assumes "adv_loop B q uv um mi k made p ss prev m = (c, m', Inr r)" and "success r"
  shows "\<exists>s j p' m0. adv_iteration B q uv um j p' m0 = Inr s \<and> stop s
           \<and> answer r = final_answer s \<and> verification r = verdict s \<and> iterations r = int j"
  using assms
proof (induction k arbitrary: made p ss prev m)
  case 0
  then show ?case by (auto split: option.splits)
next
  case (Suc k)
  show ?case
  proof (cases "adv_iteration B q uv um (Suc made) p m")
    case (Inl e)
    then show ?thesis using Suc.prems by simp
  next
    case (Inr s)
    show ?thesis
    proof (cases "stop s")
      case True
      have "int (Suc made) = 1 + int made" by simp
      then show ?thesis
        using Inr Suc.prems True
        by (auto intro!: exI [of _ s] exI [of _ "Suc made"] exI [of _ p] exI [of _ m])
    next
      case False
      then show ?thesis
        using Inr Suc.prems Suc.IH [of "Suc made" "next_prompt s" "ss @ [step s]"
            "Some (final_answer s, verdict s)" "memory_after s"]
        by simp
    qed
  qed
qed

lemma run_verifier_on:
  assumes "verifier B = Some v" and "py_truthy f"
  shows "fst (run_verifier B True i q th f ob p) = Some (verify (loads B) (v i) q f ob '''')"
  using assms by (simp add: run_verifier_def Let_def)

lemma should_stop_gated:
  "should_stop True True f a (Some V) \<Longrightarrow> V = [] \<or> dict_get V ''verdict'' JNull = JStr ''pass''"
  by (auto simp: should_stop_def Let_def split: if_splits)

lemma adv_iteration_cases:
  assumes "adv_iteration B q uv um i p m = Inr s"
  shows "\<exists>st ob p1. call_llm (loads B) (chat B i) p = Inr st \<and> step s = st
           \<and> final_answer s = step_final_answer st
           \<and> verdict s = fst (run_verifier B uv i q (dict_get st ''thought'' (JStr ''''))
                                (step_final_answer st) ob p1)
           \<and> stop s = should_stop uv (verifier B \<noteq> None) (step_final_answer st) (step_action st)
                         (verdict s)"
proof (cases "call_llm (loads B) (chat B i) p")
  case (Inl e)
  then show ?thesis using assms by (simp add: adv_iteration_def)
next
  case (Inr st)
  show ?thesis
  proof (cases "log_thought (dict_get st ''thought'' (JStr ''''))")
    case (Some e)
    then show ?thesis using assms Inr by (simp add: adv_iteration_def Let_def)
  next
    case None
    show ?thesis
    proof (cases "invokes_tool st")
      case False
      have "adv_iteration B q uv um i p m = Inr s" by (rule assms)
      then show ?thesis
        unfolding adv_iteration_no_tool [OF Inr None False]
        by (intro exI [of _ st] exI [of _ "[]"] exI [of _ p]) (use Inr in auto)
    next
      case True
      show ?thesis
      proof (cases "dispatch (tools B) i q (step_action st) (dict_get st ''action_input'' (JStr ''''))")
        case (Inl e)
        then show ?thesis
          using assms Inr None True
          by (simp add: adv_iteration_def Let_def invokes_tool_def step_action_def)
      next
        case d: (Inr oa)
        obtain ob ai where oa: "oa = (ob, ai)" by (cases oa) auto
        have "adv_iteration B q uv um i p m = Inr s" by (rule assms)
        then show ?thesis
          unfolding adv_iteration_tool [OF Inr None True d [unfolded oa]]
          by (intro exI [of _ st] exI [of _ ob]
              exI [of _ "p @ ''\<newline>\<newline>Observation: '' @ ob @ ''\<newline>Continue reasoning.''"])
            (use Inr in auto)
      qed
    qed
  qed
qed

lemma adv_iteration_stop_verdict:
  assumes "adv_iteration B q True um i p m = Inr s" and "stop s" and "verifier B = Some v"
  shows "\<exists>a ob. verdict s = Some (verify (loads B) (v i) q a ob '''')
           \<and> (verify (loads B) (v i) q a ob '''' = []
                \<or> dict_get (verify (loads B) (v i) q a ob '''') ''verdict'' JNull = JStr ''pass'')"
proof -
  obtain st ob p1 where c:
    "verdict s = fst (run_verifier B True i q (dict_get st ''thought'' (JStr ''''))
                        (step_final_answer st) ob p1)"
    "stop s = should_stop True (verifier B \<noteq> None) (step_final_answer st) (step_action st)
                (verdict s)"
    using adv_iteration_cases [OF assms(1)] by blast
  have t: "py_truthy (step_final_answer st)"
    using c(2) assms(2) should_stop_imp by blast
  have v: "verdict s = Some (verify (loads B) (v i) q (step_final_answer st) ob '''')"
    using c(1) run_verifier_on [OF assms(3) t] by simp
  have "should_stop True True (step_final_answer st) (step_action st)
          (Some (verify (loads B) (v i) q (step_final_answer st) ob ''''))"
    using c(2) assms(2,3) v by simp
  then show ?thesis
    using v should_stop_gated by blast
qed

section \<open>Termination and the stop condition\<close>

lemma effective_max_iter_Some: "n \<noteq> 0 \<Longrightarrow> effective_max_iter A (Some n) = n"
  by (simp add: effective_max_iter_def)

lemma adv_iteration_never_final:
  assumes "\<forall>j p. \<exists>st. call_llm (loads B) (chat B j) p = Inr st \<and> step_ok st \<and> \<not> is_final st"
  shows "\<forall>j p m. \<exists>s. adv_iteration B q uv um j p m = Inr s \<and> \<not> stop s"
proof (intro allI)
  fix j p m
  obtain st where st: "call_llm (loads B) (chat B j) p = Inr st" "step_ok st" "\<not> is_final st"
    using assms by blast
  show "\<exists>s. adv_iteration B q uv um j p m = Inr s \<and> \<not> stop s"
    using adv_iteration_ok [OF st(1,2), of q uv um m] st(3) by auto
qed

text \<open>
  Steps of the schema. With a ceiling \<open>n \<ge> 1\<close> both controllers call the reasoning
  model at most \<open>n\<close> times, whatever the services and the tools answer. When every
  parsed step invokes a tool, its thought being loggable and its action something the
  registry can look up (\<open>step_ok\<close>), the run makes exactly \<open>n\<close> calls and
  returns \<open>success = False\<close> with \<open>iterations = n\<close>.
\<close>

lemma run_within_max_iterations:
  assumes "1 \<le> n"
  shows "fst (run A q (Some n)) \<le> nat n
       \<and> fst (adv_run B mem q (Some n) uv um) \<le> nat n
       \<and> ((\<forall>j p. \<exists>st. call_llm (loads A) (chat A j) p = Inr st \<and> step_ok st \<and> invokes_tool st)
            \<longrightarrow> (\<exists>r. run A q (Some n) = (nat n, Inr r) \<and> \<not> success r \<and> iterations r = n))
       \<and> ((\<forall>j p. \<exists>st. call_llm (loads B) (chat B j) p = Inr st \<and> step_ok st \<and> invokes_tool st)
            \<longrightarrow> (\<exists>r m'. adv_run B mem q (Some n) uv um = (nat n, m', Inr r) \<and> \<not> success r
                    \<and> iterations r = n))"
proof (intro conjI impI)
  have n: "n \<noteq> 0" "0 < nat n" using assms by simp_all
  show "fst (run A q (Some n)) \<le> nat n"
    using base_loop_calls_le [of A q n "nat n" 0] n
    by (simp add: run_def effective_max_iter_Some)
  show "fst (adv_run B mem q (Some n) uv um) \<le> nat n"
    using adv_loop_calls_le [of B q uv um n "nat n" 0] n
    by (simp add: adv_run_def effective_max_iter_Some Let_def)
  {
    assume h: "\<forall>j p. \<exists>st. call_llm (loads A) (chat A j) p = Inr st \<and> step_ok st \<and> invokes_tool st"
    then have "\<forall>j p. \<exists>st. call_llm (loads A) (chat A j) p = Inr st \<and> step_ok st \<and> \<not> is_final st"
      using invokes_tool_not_final by blast
    then show "\<exists>r. run A q (Some n) = (nat n, Inr r) \<and> \<not> success r \<and> iterations r = n"
      using base_loop_never_final [of A "nat n" None q n 0] n
      by (simp add: run_def effective_max_iter_Some)
  }
  {
    assume h: "\<forall>j p. \<exists>st. call_llm (loads B) (chat B j) p = Inr st \<and> step_ok st \<and> invokes_tool st"
    then have "\<forall>j p. \<exists>st. call_llm (loads B) (chat B j) p = Inr st \<and> step_ok st \<and> \<not> is_final st"
      using invokes_tool_not_final by blast
    then have "\<forall>j p m. \<exists>s. adv_iteration B q uv um j p m = Inr s \<and> \<not> stop s"
      by (rule adv_iteration_never_final)
    then show "\<exists>r m'. adv_run B mem q (Some n) uv um = (nat n, m', Inr r) \<and> \<not> success r
                 \<and> iterations r = n"
      using adv_loop_never_stop [of B q uv um "nat n" None n 0] n
      by (simp add: adv_run_def effective_max_iter_Some Let_def)
  }
qed

lemmas step_defs =
  step_ok_def invokes_tool_def is_final_def step_action_def step_final_answer_def
  step_observation_def log_thought_def py_slice_to_def dict_get_def

lemma search_agent_always_invokes:
  "\<forall>j p. \<exists>st. call_llm (loads search_agent) (chat search_agent j) p = Inr st \<and> step_ok st
     \<and> invokes_tool st"
  by (simp add: search_agent_def parser_defs sample_loads_def sample_docs step_defs)

lemma run_within_max_iterations_example:
  "fst (run search_agent ''q'' (Some 3)) \<le> 3
   \<and> (\<exists>r. run search_agent ''q'' (Some 3) = (3, Inr r) \<and> \<not> success r \<and> iterations r = 3)
   \<and> (\<exists>r m'. adv_run (with_failing_verifier search_agent) (Some sample_memory) ''q'' (Some 3)
                True True = (3, m', Inr r) \<and> \<not> success r \<and> iterations r = 3)"
proof -
  have a: "\<forall>j p. \<exists>st. call_llm (loads search_agent) (chat search_agent j) p = Inr st
             \<and> step_ok st \<and> invokes_tool st"
    by (rule search_agent_always_invokes)
  have b: "\<forall>j p. \<exists>st. call_llm (loads (with_failing_verifier search_agent))
                        (chat (with_failing_verifier search_agent) j) p = Inr st
             \<and> step_ok st \<and> invokes_tool st"
    using a by (simp add: with_failing_verifier_def)
  show ?thesis
    using run_within_max_iterations [of 3 search_agent "''q''"
        "with_failing_verifier search_agent" "Some sample_memory" True True] a b
    by simp
qed

text \<open>
  With verification disabled, or with no verifier attached, and on steps that do not
  make the body of the loop raise (\<open>step_ok\<close>), the loop stops at the first
  iteration whose parsed step is final: if the steps parsed before iteration \<open>i\<close>
  are not final and the one parsed in iteration \<open>i\<close> is, and \<open>i\<close> is within
  the ceiling, either controller makes exactly \<open>i\<close> calls and returns
  \<open>success = True\<close>, \<open>iterations = i\<close> and that step's final answer.
\<close>

lemma run_stops_at_first_final:
  assumes "1 \<le> i" and "int i \<le> n"
  shows "((\<forall>j p. 1 \<le> j \<and> j < i \<longrightarrow>
             (\<exists>st. call_llm (loads A) (chat A j) p = Inr st \<and> step_ok st \<and> \<not> is_final st))
          \<and> (\<forall>p. \<exists>st. call_llm (loads A) (chat A i) p = Inr st \<and> step_ok st \<and> is_final st)
          \<longrightarrow> (\<exists>r st p'. run A q (Some n) = (i, Inr r) \<and> success r \<and> iterations r = int i
                  \<and> call_llm (loads A) (chat A i) p' = Inr st \<and> is_final st
                  \<and> answer r = step_final_answer st))
       \<and> ((\<not> uv \<or> verifier B = None)
          \<and> (\<forall>j p. 1 \<le> j \<and> j < i \<longrightarrow>
             (\<exists>st. call_llm (loads B) (chat B j) p = Inr st \<and> step_ok st \<and> \<not> is_final st))
          \<and> (\<forall>p. \<exists>st. call_llm (loads B) (chat B i) p = Inr st \<and> step_ok st \<and> is_final st)
          \<longrightarrow> (\<exists>r m' st p'. adv_run B mem q (Some n) uv um = (i, m', Inr r) \<and> success r
                  \<and> iterations r = int i
                  \<and> call_llm (loads B) (chat B i) p' = Inr st \<and> is_final st
                  \<and> answer r = step_final_answer st))"
proof (intro conjI impI)
  have n: "n \<noteq> 0" "i \<le> nat n" "0 < i" using assms by simp_all
  {
    assume h: "(\<forall>j p. 1 \<le> j \<and> j < i \<longrightarrow>
             (\<exists>st. call_llm (loads A) (chat A j) p = Inr st \<and> step_ok st \<and> \<not> is_final st))
          \<and> (\<forall>p. \<exists>st. call_llm (loads A) (chat A i) p = Inr st \<and> step_ok st \<and> is_final st)"
    then have h1: "\<forall>j p. 0 < j \<and> j < i \<longrightarrow>
             (\<exists>st. call_llm (loads A) (chat A j) p = Inr st \<and> step_ok st \<and> \<not> is_final st)"
      by (simp add: Suc_le_eq)
    from h have h2: "\<forall>p. \<exists>st. call_llm (loads A) (chat A i) p = Inr st \<and> step_ok st \<and> is_final st"
      by simp
    have le: "i \<le> 0 + nat n" using n(2) by simp
    have "\<exists>r st p'. base_loop A q n (nat n) 0 (compose A q) [] None = (i, Inr r) \<and> success r
           \<and> iterations r = int i
           \<and> call_llm (loads A) (chat A i) p' = Inr st \<and> answer r = step_final_answer st"
      by (rule base_loop_first_final [OF h1 h2 n(3) le])
    then obtain r st p' where r: "base_loop A q n (nat n) 0 (compose A q) [] None = (i, Inr r)"
      "success r" "iterations r = int i" "call_llm (loads A) (chat A i) p' = Inr st"
      "answer r = step_final_answer st"
      by blast
    have run_eq: "run A q (Some n) = base_loop A q n (nat n) 0 (compose A q) [] None"
      using n(1) by (simp add: run_def effective_max_iter_Some)
    obtain st' where st': "call_llm (loads A) (chat A i) p' = Inr st'" "is_final st'"
      using h2 by blast
    then have "is_final st" using r(4) by simp
    then show "\<exists>r st p'. run A q (Some n) = (i, Inr r) \<and> success r \<and> iterations r = int i
                  \<and> call_llm (loads A) (chat A i) p' = Inr st \<and> is_final st
                  \<and> answer r = step_final_answer st"
      using r run_eq by auto
  }
  {
    assume h: "(\<not> uv \<or> verifier B = None)
          \<and> (\<forall>j p. 1 \<le> j \<and> j < i \<longrightarrow>
             (\<exists>st. call_llm (loads B) (chat B j) p = Inr st \<and> step_ok st \<and> \<not> is_final st))
          \<and> (\<forall>p. \<exists>st. call_llm (loads B) (chat B i) p = Inr st \<and> step_ok st \<and> is_final st)"
    then have off: "\<not> uv \<or> verifier B = None" by simp
    from h have h2: "\<forall>p. \<exists>st. call_llm (loads B) (chat B i) p = Inr st \<and> step_ok st \<and> is_final st"
      by simp
    from h have h1: "\<forall>j p. 0 < j \<and> j < i \<longrightarrow>
             (\<exists>st. call_llm (loads B) (chat B j) p = Inr st \<and> step_ok st \<and> \<not> is_final st)"
      by (simp add: Suc_le_eq)
    have g1: "\<forall>j p m. 0 < j \<and> j < i \<longrightarrow>
             (\<exists>s. adv_iteration B q uv um j p m = Inr s \<and> \<not> stop s)"
    proof (intro allI impI)
      fix j p m assume j: "0 < j \<and> j < i"
      then obtain st where st: "call_llm (loads B) (chat B j) p = Inr st" "step_ok st"
        "\<not> is_final st"
        using h1 by blast
      show "\<exists>s. adv_iteration B q uv um j p m = Inr s \<and> \<not> stop s"
        using adv_iteration_ok [OF st(1,2), of q uv um m] st(3) by auto
    qed
    have g2: "\<forall>p m. \<exists>s. adv_iteration B q uv um i p m = Inr s \<and> stop s"
    proof (intro allI)
      fix p m
      obtain st where st: "call_llm (loads B) (chat B i) p = Inr st" "step_ok st" "is_final st"
        using h2 by blast
      show "\<exists>s. adv_iteration B q uv um i p m = Inr s \<and> stop s"
        using adv_iteration_ok [OF st(1,2), of q uv um m] st(3) off by auto
    qed
    define mem0 where "mem0 =
         (case mem of None \<Rightarrow> None
          | Some m \<Rightarrow> if um then Some (start_session m q (clock B SessionStamp) (clock B SessionStart))
                      else Some m)"
    have le: "i \<le> 0 + nat n" using n(2) by simp
    have "\<exists>r m' s p' m0. adv_loop B q uv um n (nat n) 0 (compose B q) [] None mem0 = (i, m', Inr r)
           \<and> success r \<and> iterations r = int i
           \<and> adv_iteration B q uv um i p' m0 = Inr s \<and> stop s
           \<and> answer r = final_answer s \<and> verification r = verdict s"
      by (rule adv_loop_first_stop [OF g1 g2 n(3) le])
    then obtain r m' s p' m0 where r:
      "adv_loop B q uv um n (nat n) 0 (compose B q) [] None mem0 = (i, m', Inr r)"
      "success r" "iterations r = int i" "adv_iteration B q uv um i p' m0 = Inr s"
      "answer r = final_answer s"
      by blast
    have run_eq: "adv_run B mem q (Some n) uv um
                    = adv_loop B q uv um n (nat n) 0 (compose B q) [] None mem0"
      using n(1) by (simp add: adv_run_def effective_max_iter_Some Let_def mem0_def)
    obtain st where st: "call_llm (loads B) (chat B i) p' = Inr st" "step_ok st" "is_final st"
      using h2 by blast
    have "final_answer s = step_final_answer st"
      using adv_iteration_ok [OF st(1,2), of q uv um m0] r(4) by auto
    then show "\<exists>r m' st p'. adv_run B mem q (Some n) uv um = (i, m', Inr r) \<and> success r
                  \<and> iterations r = int i
                  \<and> call_llm (loads B) (chat B i) p' = Inr st \<and> is_final st
                  \<and> answer r = step_final_answer st"
      using r st run_eq by auto
  }
qed

lemma final_agent_always_final:
  "\<forall>p. \<exists>st. call_llm (loads final_agent) (chat final_agent 1) p = Inr st \<and> step_ok st
     \<and> is_final st"
  by (simp add: final_agent_def parser_defs sample_loads_def sample_docs step_defs)

lemma call_llm_final_agent:
  "call_llm (loads final_agent) (chat final_agent j) p
     = Inr [(''thought'', JStr ''arithmetic''), (''action'', JStr ''none''),
            (''action_input'', JStr ''''), (''final_answer'', JStr ''4'')]"
  by (simp add: final_agent_def parser_defs sample_loads_def sample_docs)

lemma run_stops_at_first_final_example:
  "(\<exists>r. run final_agent ''What is 2+2'' (Some 3) = (1, Inr r) \<and> success r \<and> iterations r = 1
        \<and> answer r = JStr ''4'')
   \<and> (\<exists>r m'. adv_run (with_failing_verifier final_agent) (Some sample_memory) ''What is 2+2''
                (Some 3) False True = (1, m', Inr r) \<and> success r \<and> iterations r = 1
        \<and> answer r = JStr ''4'')"
proof -
  have a: "\<forall>p. \<exists>st. call_llm (loads final_agent) (chat final_agent 1) p = Inr st \<and> step_ok st
             \<and> is_final st"
    by (rule final_agent_always_final)
  have b: "\<forall>p. \<exists>st. call_llm (loads (with_failing_verifier final_agent))
                      (chat (with_failing_verifier final_agent) 1) p = Inr st \<and> step_ok st
             \<and> is_final st"
    using a by (simp add: with_failing_verifier_def)
  have c: "call_llm (loads (with_failing_verifier final_agent))
             (chat (with_failing_verifier final_agent) j) p
           = call_llm (loads final_agent) (chat final_agent j) p" for j p
    by (simp add: with_failing_verifier_def)
  show ?thesis
    using run_stops_at_first_final [of 1 3 final_agent "''What is 2+2''" False
        "with_failing_verifier final_agent" "Some sample_memory" True] a b
    by (auto simp: c call_llm_final_agent step_final_answer_def dict_get_def)
qed

text \<open>The scenario of the specification, whole.\<close>

lemma run_final_agent_scenario:
  "run final_agent ''What is 2+2'' (Some 3)
     = (1, Inr \<lparr>answer = JStr ''4'',
                steps = [[(''thought'', JStr ''arithmetic''), (''action'', JStr ''none''),
                          (''action_input'', JStr ''''), (''final_answer'', JStr ''4'')]],
                iterations = 1, success = True\<rparr>)"
  by (simp add: run_def effective_max_iter_def base_iteration_def call_llm_final_agent
      log_thought_def py_slice_to_def dict_get_def numeral_2_eq_2 numeral_3_eq_3 Let_def)

lemma adv_run_eq:
  "n \<noteq> 0 \<Longrightarrow> adv_run B mem q (Some n) uv um =
     adv_loop B q uv um n (nat n) 0 (compose B q) [] None
       (case mem of None \<Rightarrow> None
        | Some m \<Rightarrow> if um then Some (start_session m q (clock B SessionStamp) (clock B SessionStart))
                    else Some m)"
  by (simp add: adv_run_def effective_max_iter_Some Let_def)

text \<open>
  With a verifier attached and verification enabled, a run that ends in success ended
  on a verdict \<^verbatim>\<open>pass\<close>, provided the verifier never hands back the empty object.
  With a verifier whose verdicts are never \<^verbatim>\<open>pass\<close>, and on steps that do not make
  the body of the loop raise, the loop does not stop on a final answer: it runs to the
  ceiling \<open>n\<close>, making \<open>n\<close> calls, and returns \<open>success = False\<close> with
  \<open>iterations = n\<close>.
\<close>

lemma verifier_gates_success:
  assumes "verifier B = Some v"
  shows "((\<forall>j a ob. verify (loads B) (v j) q a ob '''' \<noteq> [])
          \<and> adv_run B mem q mi True um = (c, m', Inr r) \<and> success r
          \<longrightarrow> (\<exists>V. verification r = Some V \<and> dict_get V ''verdict'' JNull = JStr ''pass''))
       \<and> (1 \<le> n
          \<and> (\<forall>j a ob. verify (loads B) (v j) q a ob '''' \<noteq> []
                \<and> dict_get (verify (loads B) (v j) q a ob '''') ''verdict'' JNull \<noteq> JStr ''pass'')
          \<and> (\<forall>j p. \<exists>st. call_llm (loads B) (chat B j) p = Inr st \<and> step_ok st)
          \<longrightarrow> (\<exists>r m'. adv_run B mem q (Some n) True um = (nat n, m', Inr r) \<and> \<not> success r
                  \<and> iterations r = n))"
proof (intro conjI impI)
  {
    assume h: "(\<forall>j a ob. verify (loads B) (v j) q a ob '''' \<noteq> [])
          \<and> adv_run B mem q mi True um = (c, m', Inr r) \<and> success r"
    then obtain mem0 k mx where
      L: "adv_loop B q True um mx k 0 (compose B q) [] None mem0 = (c, m', Inr r)"
      by (auto simp: adv_run_def Let_def)
    have sr: "success r" using h by simp
    obtain s j p' m0 where s: "adv_iteration B q True um j p' m0 = Inr s" "stop s"
      "verification r = verdict s"
      using adv_loop_success [OF L sr] by auto
    obtain a ob where "verdict s = Some (verify (loads B) (v j) q a ob '''')"
      "verify (loads B) (v j) q a ob '''' = []
        \<or> dict_get (verify (loads B) (v j) q a ob '''') ''verdict'' JNull = JStr ''pass''"
      using adv_iteration_stop_verdict [OF s(1,2) assms] by blast
    then show "\<exists>V. verification r = Some V \<and> dict_get V ''verdict'' JNull = JStr ''pass''"
      using h s(3) by auto
  }
  {
    assume h: "1 \<le> n
          \<and> (\<forall>j a ob. verify (loads B) (v j) q a ob '''' \<noteq> []
                \<and> dict_get (verify (loads B) (v j) q a ob '''') ''verdict'' JNull \<noteq> JStr ''pass'')
          \<and> (\<forall>j p. \<exists>st. call_llm (loads B) (chat B j) p = Inr st \<and> step_ok st)"
    then have n: "n \<noteq> 0" "0 < nat n" by simp_all
    have g: "\<forall>j p m. \<exists>s. adv_iteration B q True um j p m = Inr s \<and> \<not> stop s"
    proof (intro allI)
      fix j p m
      obtain st where st: "call_llm (loads B) (chat B j) p = Inr st" "step_ok st"
        using h by blast
      obtain s where s: "adv_iteration B q True um j p m = Inr s"
        using adv_iteration_ok [OF st, of q True um m] by blast
      have "\<not> stop s"
      proof
        assume "stop s"
        then obtain a ob where
          "verify (loads B) (v j) q a ob '''' = []
            \<or> dict_get (verify (loads B) (v j) q a ob '''') ''verdict'' JNull = JStr ''pass''"
          using adv_iteration_stop_verdict [OF s _ assms] by blast
        then show False using h by blast
      qed
      then show "\<exists>s. adv_iteration B q True um j p m = Inr s \<and> \<not> stop s"
        using s by blast
    qed
    have "\<exists>r m'. adv_loop B q True um n (nat n) 0 (compose B q) [] None
             (case mem of None \<Rightarrow> None
              | Some m \<Rightarrow> if um then Some (start_session m q (clock B SessionStamp)
                                            (clock B SessionStart))
                          else Some m) = (0 + nat n, m', Inr r)
           \<and> \<not> success r \<and> iterations r = n"
      using n(2) by (intro adv_loop_never_stop [OF g]) simp
    then show "\<exists>r m'. adv_run B mem q (Some n) True um = (nat n, m', Inr r) \<and> \<not> success r
                  \<and> iterations r = n"
      using n(1) by (simp add: adv_run_eq)
  }
qed

lemma verify_sample_fail:
  "verify sample_loads (\<lambda>p. Inr doc_fail) q a ob ctx
     = [(''verdict'', JStr ''fail''), (''reason'', JStr ''unsupported''),
        (''suggestion'', JStr ''cite a source''), (''confidence'', JFloat ''0.9'')]"
  by (simp add: verify_def py_strip_def py_isspace_def findall_braces_def sample_loads_def
      sample_docs)

lemma verify_sample_pass:
  "verify sample_loads (\<lambda>p. Inr doc_pass) q a ob ctx
     = [(''verdict'', JStr ''pass''), (''reason'', JStr ''ok''),
        (''suggestion'', JStr ''''), (''confidence'', JFloat ''0.8'')]"
  by (simp add: verify_def py_strip_def py_isspace_def findall_braces_def sample_loads_def
      sample_docs)

lemma adv_run_passing_scenario:
  "\<exists>m'. adv_run (with_passing_verifier final_agent) (Some sample_memory) ''What is 2+2''
          (Some 3) True True
     = (1, m',
        Inr \<lparr>answer = JStr ''4'',
             steps = [[(''thought'', JStr ''arithmetic''), (''action'', JStr ''none''),
                       (''action_input'', JStr ''''), (''final_answer'', JStr ''4'')]],
             iterations = 1, success = True,
             verification = Some [(''verdict'', JStr ''pass''), (''reason'', JStr ''ok''),
                                  (''suggestion'', JStr ''''), (''confidence'', JFloat ''0.8'')]\<rparr>)"
proof -
  have c: "call_llm (loads (with_passing_verifier final_agent))
             (chat (with_passing_verifier final_agent) j) p
           = Inr [(''thought'', JStr ''arithmetic''), (''action'', JStr ''none''),
                  (''action_input'', JStr ''''), (''final_answer'', JStr ''4'')]" for j p
    using call_llm_final_agent [of j p] by (simp add: with_passing_verifier_def)
  have v: "verifier (with_passing_verifier final_agent) = Some (\<lambda>iteration prompt. Inr doc_pass)"
    "loads (with_passing_verifier final_agent) = sample_loads"
    by (simp_all add: with_passing_verifier_def final_agent_def)
  have it: "adv_iteration (with_passing_verifier final_agent) ''What is 2+2'' True True j p m
              = Inr \<lparr>step = [(''thought'', JStr ''arithmetic''), (''action'', JStr ''none''),
                           (''action_input'', JStr ''''), (''final_answer'', JStr ''4'')],
                   next_prompt = p, final_answer = JStr ''4'',
                   verdict = Some [(''verdict'', JStr ''pass''), (''reason'', JStr ''ok''),
                                   (''suggestion'', JStr ''''), (''confidence'', JFloat ''0.8'')],
                   memory_after =
                     record_step (with_passing_verifier final_agent) True m j (JStr ''arithmetic'')
                       (JStr ''none'') (JStr '''') '''' (JStr ''4'')
                       (Some [(''verdict'', JStr ''pass''), (''reason'', JStr ''ok''),
                              (''suggestion'', JStr ''''), (''confidence'', JFloat ''0.8'')]),
                   stop = True\<rparr>" for j p m
    by (subst adv_iteration_no_tool [OF c])
      (simp_all add: step_defs run_verifier_def v verify_sample_pass should_stop_def Let_def)
  show ?thesis
    by (simp add: adv_run_def effective_max_iter_def Let_def numeral_3_eq_3 it)
qed

lemma verifier_gates_success_example:
  "(\<exists>r m' V. adv_run (with_passing_verifier final_agent) (Some sample_memory) ''What is 2+2''
                  (Some 3) True True = (1, m', Inr r)
        \<and> success r \<and> verification r = Some V \<and> dict_get V ''verdict'' JNull = JStr ''pass'')
   \<and> (\<exists>r m'. adv_run (with_failing_verifier final_agent) (Some sample_memory) ''What is 2+2''
                (Some 3) True True = (3, m', Inr r) \<and> \<not> success r \<and> iterations r = 3)"
proof (intro conjI)
  let ?P = "with_passing_verifier final_agent" and ?F = "with_failing_verifier final_agent"
  let ?q = "''What is 2+2''"
  let ?R = "\<lparr>answer = JStr ''4'',
             steps = [[(''thought'', JStr ''arithmetic''), (''action'', JStr ''none''),
                       (''action_input'', JStr ''''), (''final_answer'', JStr ''4'')]],
             iterations = 1, success = True,
             verification = Some [(''verdict'', JStr ''pass''), (''reason'', JStr ''ok''),
                                  (''suggestion'', JStr ''''), (''confidence'', JFloat ''0.8'')]\<rparr>"
  obtain m' where run: "adv_run ?P (Some sample_memory) ?q (Some 3) True True = (1, m', Inr ?R)"
    using adv_run_passing_scenario by blast
  have vp: "verifier ?P = Some (\<lambda>iteration prompt. Inr doc_pass)"
    by (simp add: with_passing_verifier_def)
  have np: "\<forall>j a ob. verify (loads ?P) ((\<lambda>iteration prompt. Inr doc_pass) j) ?q a ob '''' \<noteq> []"
    by (simp add: with_passing_verifier_def final_agent_def verify_sample_pass)
  have "\<exists>V. verification ?R = Some V \<and> dict_get V ''verdict'' JNull = JStr ''pass''"
    using verifier_gates_success [OF vp, where q = ?q and mem = "Some sample_memory"
          and mi = "Some 3" and um = True and c = 1 and m' = m' and r = ?R]
      np run
    by simp
  then show "\<exists>r m' V. adv_run ?P (Some sample_memory) ?q (Some 3) True True = (1, m', Inr r)
        \<and> success r \<and> verification r = Some V \<and> dict_get V ''verdict'' JNull = JStr ''pass''"
    using run by auto
  have vf: "verifier ?F = Some (\<lambda>iteration prompt. Inr doc_fail)"
    by (simp add: with_failing_verifier_def)
  have nf: "\<forall>j a ob. verify (loads ?F) ((\<lambda>iteration prompt. Inr doc_fail) j) ?q a ob '''' \<noteq> []
              \<and> dict_get (verify (loads ?F) ((\<lambda>iteration prompt. Inr doc_fail) j) ?q a ob '''')
                   ''verdict'' JNull \<noteq> JStr ''pass''"
    by (simp add: with_failing_verifier_def final_agent_def verify_sample_fail dict_get_def)
  have ok: "\<forall>j p. \<exists>st. call_llm (loads ?F) (chat ?F j) p = Inr st \<and> step_ok st"
    using call_llm_final_agent by (simp add: with_failing_verifier_def step_defs)
  show "\<exists>r m'. adv_run ?F (Some sample_memory) ?q (Some 3) True True = (3, m', Inr r)
          \<and> \<not> success r \<and> iterations r = 3"
    using verifier_gates_success [OF vf, where q = ?q and n = 3 and mem = "Some sample_memory"
          and um = True] nf ok
    by simp
qed

section \<open>Normalization, the verifier and the memory\<close>

lemma py_str_JStr: "py_str (JStr s) = s"
  by (simp add: py_str_def)

lemma dec_nat_1: "dec_nat (Suc 0) = ''1''"
  by (subst dec_nat.simps) simp

lemma py_str_one: "py_str (JInt 1) = ''1''"
  using dec_nat_1 by (simp add: py_str_def dec_int_def)

lemma snd_normalize_input:
  "snd (normalize_input q x)
     = (if py_strip (py_str (fst (normalize_input q x))) = [] then q
        else py_strip (py_str (fst (normalize_input q x))))"
  by (simp add: normalize_input_def Let_def)

lemma fst_normalize_input_list:
  "fst (normalize_input q (JList xs)) = JStr (py_join '' '' (map py_str xs))"
  by (simp add: normalize_input_def Let_def)

lemma fst_normalize_input_dict:
  "fst (normalize_input q (JDict kvs))
     = JStr (py_join '' '' (map (\<lambda>kv. fst kv @ '': '' @ py_str (snd kv)) kvs))"
  by (simp add: normalize_input_def Let_def)

lemma fst_normalize_input_str: "fst (normalize_input q (JStr s)) = JStr s"
  by (simp add: normalize_input_def Let_def)

lemma py_strip_a_b: "py_strip ''a b'' = ''a b''"
  by (simp add: py_strip_def py_isspace_def)

lemma py_strip_x_1: "py_strip ''x: 1'' = ''x: 1''"
  by (simp add: py_strip_def py_isspace_def)

lemma py_strip_Nil: "py_strip [] = []"
  by (simp add: py_strip_def)

lemma dispatch_JStr:
  "dispatch reg i q (JStr name) x
     = (case reg name of
          None \<Rightarrow> Inr (''Unknown tool: '' @ name, x)
        | Some execute \<Rightarrow>
            (case execute i (snd (normalize_input q x)) of
               Inl e \<Rightarrow> Inr (''Tool error: '' @ msg e, fst (normalize_input q x))
             | Inr ob \<Rightarrow> Inr (ob, fst (normalize_input q x))))"
  by (simp add: dispatch_def split: option.splits sum.splits)

text \<open>
  Claim C6. Before a registered tool is executed its input is normalized: a list is
  joined with single spaces, so \<^verbatim>\<open>["a","b"]\<close> gives \<^verbatim>\<open>a b\<close>; a mapping is rendered as
  \<^verbatim>\<open>key: value\<close> pairs, so \<^verbatim>\<open>{"x": 1}\<close> gives \<^verbatim>\<open>x: 1\<close>; and when the text that
  results is empty after stripping (an empty or absent input, an empty list or mapping)
  the query takes its place. The text so obtained is what \<^verbatim>\<open>execute\<close> is given.
\<close>

theorem tool_input_normalized:
  "snd (normalize_input q (JList xs))
     = (if py_strip (py_join '' '' (map py_str xs)) = [] then q
        else py_strip (py_join '' '' (map py_str xs)))
   \<and> snd (normalize_input q (JDict kvs))
     = (if py_strip (py_join '' '' (map (\<lambda>kv. fst kv @ '': '' @ py_str (snd kv)) kvs)) = [] then q
        else py_strip (py_join '' '' (map (\<lambda>kv. fst kv @ '': '' @ py_str (snd kv)) kvs)))
   \<and> snd (normalize_input q x)
     = (if py_strip (py_str (fst (normalize_input q x))) = [] then q
        else py_strip (py_str (fst (normalize_input q x))))
   \<and> snd (normalize_input q (JList [JStr ''a'', JStr ''b''])) = ''a b''
   \<and> snd (normalize_input q (JDict [(''x'', JInt 1)])) = ''x: 1''
   \<and> snd (normalize_input q (JStr '''')) = q
   \<and> snd (normalize_input q (JList [])) = q
   \<and> snd (normalize_input q (JDict [])) = q
   \<and> snd (normalize_input q (dict_get [(''action'', JStr ''search'')] ''action_input'' (JStr ''''))) = q
   \<and> dispatch reg i q (JStr name) x
     = (case reg name of
          None \<Rightarrow> Inr (''Unknown tool: '' @ name, x)
        | Some execute \<Rightarrow>
            (case execute i (snd (normalize_input q x)) of
               Inl e \<Rightarrow> Inr (''Tool error: '' @ msg e, fst (normalize_input q x))
             | Inr ob \<Rightarrow> Inr (ob, fst (normalize_input q x))))"
proof (intro conjI)
  show "snd (normalize_input q (JList xs))
     = (if py_strip (py_join '' '' (map py_str xs)) = [] then q
        else py_strip (py_join '' '' (map py_str xs)))"
    by (subst snd_normalize_input) (simp only: fst_normalize_input_list py_str_JStr)
  show "snd (normalize_input q (JDict kvs))
     = (if py_strip (py_join '' '' (map (\<lambda>kv. fst kv @ '': '' @ py_str (snd kv)) kvs)) = [] then q
        else py_strip (py_join '' '' (map (\<lambda>kv. fst kv @ '': '' @ py_str (snd kv)) kvs)))"
    by (subst snd_normalize_input) (simp only: fst_normalize_input_dict py_str_JStr)
  show "snd (normalize_input q x)
     = (if py_strip (py_str (fst (normalize_input q x))) = [] then q
        else py_strip (py_str (fst (normalize_input q x))))"
    by (rule snd_normalize_input)
  show "snd (normalize_input q (JList [JStr ''a'', JStr ''b''])) = ''a b''"
    by (subst snd_normalize_input)
      (simp add: fst_normalize_input_list py_str_JStr py_strip_a_b)
  show "snd (normalize_input q (JDict [(''x'', JInt 1)])) = ''x: 1''"
    by (subst snd_normalize_input)
      (simp add: fst_normalize_input_dict py_str_JStr py_str_one py_strip_x_1)
  show "snd (normalize_input q (JStr '''')) = q"
    by (subst snd_normalize_input) (simp add: fst_normalize_input_str py_str_JStr py_strip_Nil)
  show "snd (normalize_input q (JList [])) = q"
    by (subst snd_normalize_input) (simp add: fst_normalize_input_list py_str_JStr py_strip_Nil)
  show "snd (normalize_input q (JDict [])) = q"
    by (subst snd_normalize_input) (simp add: fst_normalize_input_dict py_str_JStr py_strip_Nil)
  show "snd (normalize_input q (dict_get [(''action'', JStr ''search'')] ''action_input''
          (JStr ''''))) = q"
    by (subst snd_normalize_input)
      (simp add: dict_get_def fst_normalize_input_str py_str_JStr py_strip_Nil)
  show "dispatch reg i q (JStr name) x
     = (case reg name of
          None \<Rightarrow> Inr (''Unknown tool: '' @ name, x)
        | Some execute \<Rightarrow>
            (case execute i (snd (normalize_input q x)) of
               Inl e \<Rightarrow> Inr (''Tool error: '' @ msg e, fst (normalize_input q x))
             | Inr ob \<Rightarrow> Inr (ob, fst (normalize_input q x))))"
    by (rule dispatch_JStr)
qed

text \<open>
  Claim C8. \<^verbatim>\<open>verify\<close> absorbs every failure: an exception of the request (a timeout
  or any other), a response without a candidate, and a first candidate that does not
  decode each give the verdict \<^verbatim>\<open>uncertain\<close> with confidence \<^verbatim>\<open>0.0\<close>, an empty
  suggestion and the cause as reason. \<^verbatim>\<open>verify\<close> raises nothing: what it returns is
  always either such a verdict or the object decoded from the first candidate.
\<close>

theorem verify_absorbs_failures:
  "(vc (verifier_prompt q a ob ctx) = Inl e
      \<longrightarrow> verify ld vc q a ob ctx
            = [(''verdict'', JStr ''uncertain''),
               (''reason'', JStr (if cls e = Timeout then ''Verifier request timed out''
                                  else ''Verifier error: '' @ msg e)),
               (''suggestion'', JStr ''''), (''confidence'', JFloat ''0.0'')])
   \<and> (vc (verifier_prompt q a ob ctx) = Inr raw \<and> findall_braces (py_strip raw) = []
      \<longrightarrow> verify ld vc q a ob ctx
            = [(''verdict'', JStr ''uncertain''),
               (''reason'', JStr ''Could not parse verifier response''),
               (''suggestion'', JStr ''''), (''confidence'', JFloat ''0.0'')])
   \<and> (vc (verifier_prompt q a ob ctx) = Inr raw \<and> findall_braces (py_strip raw) = b # bs
        \<and> ld b = Inl e
      \<longrightarrow> verify ld vc q a ob ctx
            = [(''verdict'', JStr ''uncertain''),
               (''reason'', JStr (if cls e = Timeout then ''Verifier request timed out''
                                  else ''Verifier error: '' @ msg e)),
               (''suggestion'', JStr ''''), (''confidence'', JFloat ''0.0'')])
   \<and> ((\<exists>reason. verify ld vc q a ob ctx = uncertain reason)
      \<or> (\<exists>raw' b' bs'. vc (verifier_prompt q a ob ctx) = Inr raw'
           \<and> findall_braces (py_strip raw') = b' # bs'
           \<and> ld b' = Inr (verify ld vc q a ob ctx)))"
  by (auto simp: verify_def verify_except_def uncertain_def split: sum.splits list.splits)

theorem verify_absorbs_failures_witness:
  "verify sample_loads (\<lambda>p. Inl (Exn Timeout ''read timed out'')) ''q'' (JStr ''4'') '''' ''''
     = [(''verdict'', JStr ''uncertain''), (''reason'', JStr ''Verifier request timed out''),
        (''suggestion'', JStr ''''), (''confidence'', JFloat ''0.0'')]
   \<and> verify sample_loads (\<lambda>p. Inl (Exn OtherException ''connection refused'')) ''q''
        (JStr ''4'') '''' ''''
     = [(''verdict'', JStr ''uncertain''),
        (''reason'', JStr ''Verifier error: connection refused''),
        (''suggestion'', JStr ''''), (''confidence'', JFloat ''0.0'')]
   \<and> verify sample_loads (\<lambda>p. Inr ''I cannot judge this.'') ''q'' (JStr ''4'') '''' ''''
     = [(''verdict'', JStr ''uncertain''), (''reason'', JStr ''Could not parse verifier response''),
        (''suggestion'', JStr ''''), (''confidence'', JFloat ''0.0'')]
   \<and> verify sample_loads (\<lambda>p. Inr ''verdict: {pass}'') ''q'' (JStr ''4'') '''' ''''
     = [(''verdict'', JStr ''uncertain''), (''reason'', JStr ''Verifier error: Expecting value''),
        (''suggestion'', JStr ''''), (''confidence'', JFloat ''0.0'')]"
proof (intro conjI)
  show "verify sample_loads (\<lambda>p. Inl (Exn Timeout ''read timed out'')) ''q'' (JStr ''4'') '''' ''''
     = [(''verdict'', JStr ''uncertain''), (''reason'', JStr ''Verifier request timed out''),
        (''suggestion'', JStr ''''), (''confidence'', JFloat ''0.0'')]"
    using verify_absorbs_failures [where vc = "\<lambda>p. Inl (Exn Timeout ''read timed out'')"
        and q = "''q''" and a = "JStr ''4''" and ob = "''''" and ctx = "''''"
        and e = "Exn Timeout ''read timed out''" and ld = sample_loads]
    by simp
  show "verify sample_loads (\<lambda>p. Inl (Exn OtherException ''connection refused'')) ''q''
        (JStr ''4'') '''' ''''
     = [(''verdict'', JStr ''uncertain''),
        (''reason'', JStr ''Verifier error: connection refused''),
        (''suggestion'', JStr ''''), (''confidence'', JFloat ''0.0'')]"
    using verify_absorbs_failures [where vc = "\<lambda>p. Inl (Exn OtherException ''connection refused'')"
        and q = "''q''" and a = "JStr ''4''" and ob = "''''" and ctx = "''''"
        and e = "Exn OtherException ''connection refused''" and ld = sample_loads]
    by simp
  have n: "findall_braces (py_strip ''I cannot judge this.'') = []"
    by (simp add: findall_braces_def py_strip_def py_isspace_def)
  show "verify sample_loads (\<lambda>p. Inr ''I cannot judge this.'') ''q'' (JStr ''4'') '''' ''''
     = [(''verdict'', JStr ''uncertain''), (''reason'', JStr ''Could not parse verifier response''),
        (''suggestion'', JStr ''''), (''confidence'', JFloat ''0.0'')]"
    using verify_absorbs_failures [where vc = "\<lambda>p. Inr ''I cannot judge this.''"
        and q = "''q''" and a = "JStr ''4''" and ob = "''''" and ctx = "''''"
        and raw = "''I cannot judge this.''" and ld = sample_loads] n
    by simp
  have b: "findall_braces (py_strip ''verdict: {pass}'') = [''{pass}'']"
    by (simp add: findall_braces_def py_strip_def py_isspace_def)
  have l: "sample_loads ''{pass}'' = Inl (Exn JSONDecodeError ''Expecting value'')"
    by (simp add: sample_loads_def sample_docs)
  show "verify sample_loads (\<lambda>p. Inr ''verdict: {pass}'') ''q'' (JStr ''4'') '''' ''''
     = [(''verdict'', JStr ''uncertain''), (''reason'', JStr ''Verifier error: Expecting value''),
        (''suggestion'', JStr ''''), (''confidence'', JFloat ''0.0'')]"
    using verify_absorbs_failures [where vc = "\<lambda>p. Inr ''verdict: {pass}''"
        and q = "''q''" and a = "JStr ''4''" and ob = "''''" and ctx = "''''"
        and raw = "''verdict: {pass}''" and ld = sample_loads and b = "''{pass}''" and bs = "[]"
        and e = "Exn JSONDecodeError ''Expecting value''"] b l
    by simp
qed

lemmas memory_defs =
  start_session_def add_step_def session_open_def dict_merge_def save_session_def
  sample_memory_def sample_clock_def

lemma unverified_step_memory:
  "add_step (start_session sample_memory ''What is 2+2'' (sample_clock SessionStamp)
               (sample_clock SessionStart))
     1 [(''thought'', JStr ''arithmetic''), (''action'', JStr ''none''),
        (''action_input'', JStr ''''), (''observation'', JStr ''''), (''answer'', JStr ''4''),
        (''verification'', JNull)]
     (sample_clock (StepAt 1))
   = \<lparr>output_dir = ''memory'',
      current_session =
        Some [(''query'', JStr ''What is 2+2''), (''timestamp'', JStr ''20240101_000000''),
              (''start_time'', JStr ''2024-01-01T00:00:00''),
              (''steps'',
               JList [JDict [(''step'', JInt 1), (''timestamp'', JStr ''2024-01-01T00:00:01''),
                             (''thought'', JStr ''arithmetic''), (''action'', JStr ''none''),
                             (''action_input'', JStr ''''), (''observation'', JStr ''''),
                             (''answer'', JStr ''4''), (''verification'', JNull)]])],
      history = [[(''step'', JInt 1), (''timestamp'', JStr ''2024-01-01T00:00:01''),
                  (''thought'', JStr ''arithmetic''), (''action'', JStr ''none''),
                  (''action_input'', JStr ''''), (''observation'', JStr ''''),
                  (''answer'', JStr ''4''), (''verification'', JNull)]]\<rparr>"
  by (simp add: memory_defs Let_def)

lemma get_summary_null_verification:
  "get_summary
     (add_step (start_session sample_memory ''What is 2+2'' (sample_clock SessionStamp)
                  (sample_clock SessionStart))
        1 [(''thought'', JStr ''arithmetic''), (''action'', JStr ''none''),
           (''action_input'', JStr ''''), (''observation'', JStr ''''), (''answer'', JStr ''4''),
           (''verification'', JNull)]
        (sample_clock (StepAt 1)))
   = Inl (Exn AttributeError ''NoneType object has no attribute get'')"
  unfolding unverified_step_memory
  by (simp add: get_summary_def py_get_attr_def dict_get_def Let_def)

lemma get_context_summary_on_null_verification:
  "get_context_summary
     (add_step (start_session sample_memory ''What is 2+2'' (sample_clock SessionStamp)
                  (sample_clock SessionStart))
        1 [(''thought'', JStr ''arithmetic''), (''action'', JStr ''none''),
           (''action_input'', JStr ''''), (''observation'', JStr ''''), (''answer'', JStr ''4''),
           (''verification'', JNull)]
        (sample_clock (StepAt 1))) 3
   = Inr ''Step 1: arithmetic... (action: none)''"
proof -
  have one: "py_str (JInt 1) = ''1''" by (rule py_str_one)
  show ?thesis
    unfolding unverified_step_memory
    by (simp add: get_context_summary_def py_slice_from_def py_slice_to_def dict_get_def
        py_str_JStr one Let_def)
qed

text \<open>
  The extended controller writes such a record whenever the verifier did not run: here
  with verification disabled.
\<close>

lemma adv_run_leaves_null_verification:
  "\<exists>out. adv_run (with_failing_verifier final_agent) (Some sample_memory) ''What is 2+2''
            (Some 3) False True
     = (1,
        Some (fst (save_session
          (add_step (start_session sample_memory ''What is 2+2'' (sample_clock SessionStamp)
                       (sample_clock SessionStart))
             1 [(''thought'', JStr ''arithmetic''), (''action'', JStr ''none''),
                (''action_input'', JStr ''''), (''observation'', JStr ''''),
                (''answer'', JStr ''4''), (''verification'', JNull)]
             (sample_clock (StepAt 1)))
          (sample_clock SessionEnd))),
        out)"
proof -
  let ?B = "with_failing_verifier final_agent"
  have c: "call_llm (loads ?B) (chat ?B j) p
           = Inr [(''thought'', JStr ''arithmetic''), (''action'', JStr ''none''),
                  (''action_input'', JStr ''''), (''final_answer'', JStr ''4'')]" for j p
    using call_llm_final_agent [of j p] by (simp add: with_failing_verifier_def)
  have cl: "clock ?B = sample_clock"
    by (simp add: with_failing_verifier_def)
  have it: "adv_iteration ?B ''What is 2+2'' False True j p (Some m)
              = Inr \<lparr>step = [(''thought'', JStr ''arithmetic''), (''action'', JStr ''none''),
                           (''action_input'', JStr ''''), (''final_answer'', JStr ''4'')],
                   next_prompt = p, final_answer = JStr ''4'', verdict = None,
                   memory_after =
                     Some (add_step m (int j)
                       [(''thought'', JStr ''arithmetic''), (''action'', JStr ''none''),
                        (''action_input'', JStr ''''), (''observation'', JStr ''''),
                        (''answer'', JStr ''4''), (''verification'', JNull)]
                       (sample_clock (StepAt j))),
                   stop = True\<rparr>" for j p m
    by (subst adv_iteration_no_tool [OF c])
      (simp_all add: step_defs run_verifier_off should_stop_def record_step_def cl Let_def)
  show ?thesis
    by (simp add: adv_run_def effective_max_iter_def Let_def numeral_3_eq_3 it save_memory_def cl)
qed

lemma history_save_session: "history (fst (save_session m now)) = history m"
  by (simp add: save_session_def Let_def split: option.splits)

lemma get_summary_save_session: "get_summary (fst (save_session m now)) = get_summary m"
  by (simp add: get_summary_def history_save_session)

text \<open>
  Claim C9. The read accessors are to return in every state of the memory, also after
  steps whose \<^verbatim>\<open>verification\<close> is null. After the step the extended controller records
  when the verifier did not run, whose \<^verbatim>\<open>verification\<close> is \<^verbatim>\<open>None\<close>,
  \<^verbatim>\<open>get_summary\<close> raises \<^verbatim>\<open>AttributeError\<close>: the default of
  \<^verbatim>\<open>.get("verification", {})\<close> covers an absent entry, not a null one. The same holds of
  the memory that a run without verification leaves behind. (\<^verbatim>\<open>get_context_summary\<close>
  returns in that state, and neither accessor changes the memory: both are functions of
  the state alone.)
\<close>

theorem get_summary_raises_on_null_verification:
  "get_summary
     (add_step (start_session sample_memory ''What is 2+2'' (sample_clock SessionStamp)
                  (sample_clock SessionStart))
        1 [(''thought'', JStr ''arithmetic''), (''action'', JStr ''none''),
           (''action_input'', JStr ''''), (''observation'', JStr ''''), (''answer'', JStr ''4''),
           (''verification'', JNull)]
        (sample_clock (StepAt 1)))
     = Inl (Exn AttributeError ''NoneType object has no attribute get'')
   \<and> (\<exists>m out. adv_run (with_failing_verifier final_agent) (Some sample_memory) ''What is 2+2''
                (Some 3) False True = (1, Some m, out)
        \<and> get_summary m = Inl (Exn AttributeError ''NoneType object has no attribute get''))"
  using adv_run_leaves_null_verification get_summary_null_verification
  by (auto simp: get_summary_save_session)

text \<open>
  With a verdict recorded, or with no \<^verbatim>\<open>verification\<close> entry at all, the summary is
  returned.
\<close>

lemma get_summary_returns:
  assumes "history m \<noteq> []"
    and "map_of (last (history m)) ''verification'' = None
         \<or> (\<exists>v. map_of (last (history m)) ''verification'' = Some (JDict v))"
  shows "\<exists>s. get_summary m = Inr s"
  using assms by (auto simp: get_summary_def py_get_attr_def dict_get_def Let_def)

section \<open>Tool failures and the stored steps\<close>

lemma prefix_run_verifier: "prefix p (snd (run_verifier B uv i q th f ob p))"
  by (auto simp: run_verifier_def Let_def split: option.splits)

lemma invokes_tool_JStr:
  "step_action st = JStr a \<Longrightarrow> a \<noteq> [] \<Longrightarrow> a \<noteq> ''none'' \<Longrightarrow> invokes_tool st"
  by (simp add: invokes_tool_def)

lemma dispatch_failure:
  assumes "(reg a = None \<and> ob = ''Unknown tool: '' @ a)
           \<or> (\<exists>t e. reg a = Some t \<and> t i (snd (normalize_input q x)) = Inl e
                 \<and> ob = ''Tool error: '' @ msg e)"
  shows "\<exists>ai. dispatch reg i q (JStr a) x = Inr (ob, ai)"
  using assms by (auto simp: dispatch_JStr)

text \<open>
  Claim C7. A failing dispatch does not stop the loop. When \<^verbatim>\<open>execute\<close> raises, the
  observation is \<^verbatim>\<open>Tool error:\<close> followed by the message of the exception, which it
  therefore contains; when the action names no registered tool it is \<^verbatim>\<open>Unknown tool:\<close>
  followed by the name. In both cases neither controller raises: the base loop goes on
  to the next iteration with the observation written into the stored step and appended to
  the prompt, and the extended loop goes on with the observation appended to the prompt.
\<close>

theorem tool_failure_contained:
  "(reg a = Some t \<and> t i (snd (normalize_input q x)) = Inl e
      \<longrightarrow> dispatch reg i q (JStr a) x = Inr (''Tool error: '' @ msg e, fst (normalize_input q x))
          \<and> sublist (msg e) (''Tool error: '' @ msg e))
   \<and> (reg a = None \<longrightarrow> dispatch reg i q (JStr a) x = Inr (''Unknown tool: '' @ a, x))
   \<and> (call_llm (loads A) (chat A (Suc made)) p = Inr st
        \<and> log_thought (dict_get st ''thought'' (JStr '''')) = None
        \<and> step_action st = JStr a \<and> a \<noteq> [] \<and> a \<noteq> ''none''
        \<and> ((tools A a = None \<and> ob = ''Unknown tool: '' @ a)
           \<or> (\<exists>t e. tools A a = Some t
                 \<and> t (Suc made) (snd (normalize_input q (dict_get st ''action_input'' (JStr ''''))))
                     = Inl e
                 \<and> ob = ''Tool error: '' @ msg e))
      \<longrightarrow> base_loop A q mi (Suc k) made p ss la
            = base_loop A q mi k (Suc made)
                (p @ ''\<newline>\<newline>Observation: '' @ ob
                   @ ''\<newline>Continue reasoning and respond in JSON format.'')
                (ss @ [dict_set st ''observation'' (JStr ob)]) (Some (step_final_answer st)))
   \<and> (call_llm (loads B) (chat B (Suc made)) p = Inr st
        \<and> log_thought (dict_get st ''thought'' (JStr '''')) = None
        \<and> step_action st = JStr a \<and> a \<noteq> [] \<and> a \<noteq> ''none''
        \<and> ((tools B a = None \<and> ob = ''Unknown tool: '' @ a)
           \<or> (\<exists>t e. tools B a = Some t
                 \<and> t (Suc made) (snd (normalize_input q (dict_get st ''action_input'' (JStr ''''))))
                     = Inl e
                 \<and> ob = ''Tool error: '' @ msg e))
      \<longrightarrow> (\<exists>s. adv_iteration B q uv um (Suc made) p m = Inr s \<and> step s = st \<and> \<not> stop s
             \<and> prefix (p @ ''\<newline>\<newline>Observation: '' @ ob @ ''\<newline>Continue reasoning.'')
                  (next_prompt s)
             \<and> adv_loop B q uv um mi (Suc k) made p ss prev m
                 = adv_loop B q uv um mi k (Suc made) (next_prompt s) (ss @ [st])
                     (Some (final_answer s, verdict s)) (memory_after s)))"
proof (intro conjI impI)
  {
    assume h: "reg a = Some t \<and> t i (snd (normalize_input q x)) = Inl e"
    then show "dispatch reg i q (JStr a) x
                 = Inr (''Tool error: '' @ msg e, fst (normalize_input q x))"
      by (simp add: dispatch_JStr)
    show "sublist (msg e) (''Tool error: '' @ msg e)"
      by (rule suffix_imp_sublist) (rule suffix_appendI, rule suffix_order.refl)
  }
  {
    assume "reg a = None"
    then show "dispatch reg i q (JStr a) x = Inr (''Unknown tool: '' @ a, x)"
      by (simp add: dispatch_JStr)
  }
  {
    assume h: "call_llm (loads A) (chat A (Suc made)) p = Inr st
        \<and> log_thought (dict_get st ''thought'' (JStr '''')) = None
        \<and> step_action st = JStr a \<and> a \<noteq> [] \<and> a \<noteq> ''none''
        \<and> ((tools A a = None \<and> ob = ''Unknown tool: '' @ a)
           \<or> (\<exists>t e. tools A a = Some t
                 \<and> t (Suc made) (snd (normalize_input q (dict_get st ''action_input'' (JStr ''''))))
                     = Inl e
                 \<and> ob = ''Tool error: '' @ msg e))"
    then have c: "call_llm (loads A) (chat A (Suc made)) p = Inr st"
      and lg: "log_thought (dict_get st ''thought'' (JStr '''')) = None"
      and a: "step_action st = JStr a" and inv: "invokes_tool st"
      by (simp_all add: invokes_tool_JStr)
    obtain ai where
      d: "dispatch (tools A) (Suc made) q (JStr a) (dict_get st ''action_input'' (JStr ''''))
            = Inr (ob, ai)"
      using dispatch_failure [of "tools A" a ob "Suc made" q] h by blast
    have "base_iteration A q (Suc made) p =
           Inr (dict_set st ''observation'' (JStr ob),
                p @ ''\<newline>\<newline>Observation: '' @ ob
                  @ ''\<newline>Continue reasoning and respond in JSON format.'',
                step_final_answer st, False)"
      by (rule base_iteration_tool [OF c lg inv]) (simp add: a d)
    then show "base_loop A q mi (Suc k) made p ss la
            = base_loop A q mi k (Suc made)
                (p @ ''\<newline>\<newline>Observation: '' @ ob
                   @ ''\<newline>Continue reasoning and respond in JSON format.'')
                (ss @ [dict_set st ''observation'' (JStr ob)]) (Some (step_final_answer st))"
      by simp
  }
  {
    assume h: "call_llm (loads B) (chat B (Suc made)) p = Inr st
        \<and> log_thought (dict_get st ''thought'' (JStr '''')) = None
        \<and> step_action st = JStr a \<and> a \<noteq> [] \<and> a \<noteq> ''none''
        \<and> ((tools B a = None \<and> ob = ''Unknown tool: '' @ a)
           \<or> (\<exists>t e. tools B a = Some t
                 \<and> t (Suc made) (snd (normalize_input q (dict_get st ''action_input'' (JStr ''''))))
                     = Inl e
                 \<and> ob = ''Tool error: '' @ msg e))"
    then have c: "call_llm (loads B) (chat B (Suc made)) p = Inr st"
      and lg: "log_thought (dict_get st ''thought'' (JStr '''')) = None"
      and a: "step_action st = JStr a" and inv: "invokes_tool st"
      by (simp_all add: invokes_tool_JStr)
    obtain ai where
      d: "dispatch (tools B) (Suc made) q (JStr a) (dict_get st ''action_input'' (JStr ''''))
            = Inr (ob, ai)"
      using dispatch_failure [of "tools B" a ob "Suc made" q] h by blast
    have d': "dispatch (tools B) (Suc made) q (step_action st)
                (dict_get st ''action_input'' (JStr '''')) = Inr (ob, ai)"
      by (simp add: a d)
    have "\<exists>s. adv_iteration B q uv um (Suc made) p m = Inr s"
      by (simp add: adv_iteration_tool [OF c lg inv d'])
    then obtain s where s: "adv_iteration B q uv um (Suc made) p m = Inr s"
      by blast
    have ns: "\<not> stop s"
      using s inv invokes_tool_not_final [OF inv] should_stop_imp
      unfolding adv_iteration_tool [OF c lg inv d']
      by (auto simp: is_final_def)
    have st: "step s = st" and np: "prefix (p @ ''\<newline>\<newline>Observation: '' @ ob
                 @ ''\<newline>Continue reasoning.'') (next_prompt s)"
      using s prefix_run_verifier unfolding adv_iteration_tool [OF c lg inv d']
      by auto
    show "\<exists>s. adv_iteration B q uv um (Suc made) p m = Inr s \<and> step s = st \<and> \<not> stop s
             \<and> prefix (p @ ''\<newline>\<newline>Observation: '' @ ob @ ''\<newline>Continue reasoning.'')
                  (next_prompt s)
             \<and> adv_loop B q uv um mi (Suc k) made p ss prev m
                 = adv_loop B q uv um mi k (Suc made) (next_prompt s) (ss @ [st])
                     (Some (final_answer s, verdict s)) (memory_after s)"
      using s ns st np by (intro exI [of _ s]) simp
  }
qed

lemma call_llm_doc_search:
  "call_llm sample_loads (\<lambda>p. Inr doc_search) p
     = Inr [(''thought'', JStr ''look it up''), (''action'', JStr ''search''),
            (''action_input'', JList [JStr ''a'', JStr ''b''])]"
  by (simp add: parser_defs sample_loads_def sample_docs)

theorem tool_failure_contained_witness:
  "run timeout_agent ''q'' (Some 1)
     = (1, Inr \<lparr>answer = JStr ''I couldn't find a complete answer.'',
                steps = [[(''thought'', JStr ''look it up''), (''action'', JStr ''search''),
                          (''action_input'', JList [JStr ''a'', JStr ''b'']),
                          (''observation'', JStr ''Tool error: timeout'')]],
                iterations = 1, success = False\<rparr>)
   \<and> run toolless_agent ''q'' (Some 1)
     = (1, Inr \<lparr>answer = JStr ''I couldn't find a complete answer.'',
                steps = [[(''thought'', JStr ''look it up''), (''action'', JStr ''search''),
                          (''action_input'', JList [JStr ''a'', JStr ''b'']),
                          (''observation'', JStr ''Unknown tool: search'')]],
                iterations = 1, success = False\<rparr>)
   \<and> (\<exists>r m'. adv_run (with_failing_verifier timeout_agent) (Some sample_memory) ''q'' (Some 1)
                True True = (1, m', Inr r)
        \<and> \<not> success r
        \<and> steps r = [[(''thought'', JStr ''look it up''), (''action'', JStr ''search''),
                       (''action_input'', JList [JStr ''a'', JStr ''b''])]])
   \<and> dispatch (tools timeout_agent) 1 ''q'' (JStr ''search'') (JList [JStr ''a'', JStr ''b''])
     = Inr (''Tool error: timeout'', JStr ''a b'')"
proof (intro conjI)
  let ?st = "[(''thought'', JStr ''look it up''), (''action'', JStr ''search''),
              (''action_input'', JList [JStr ''a'', JStr ''b''])]"
  have st: "log_thought (dict_get ?st ''thought'' (JStr '''')) = None"
    "step_action ?st = JStr ''search''" "step_final_answer ?st = JStr ''''"
    "dict_get ?st ''action_input'' (JStr '''') = JList [JStr ''a'', JStr ''b'']"
    "dict_set ?st ''observation'' v = ?st @ [(''observation'', v)]" for v
    by (simp_all add: step_defs)
  have ct: "call_llm (loads timeout_agent) (chat timeout_agent (Suc 0)) p = Inr ?st" for p
    using call_llm_doc_search by (simp add: timeout_agent_def)
  have tt: "tools timeout_agent ''search'' = Some timeout_tool"
    "timeout_tool j x = Inl (Exn OtherException ''timeout'')" for j x
    by (simp_all add: timeout_agent_def timeout_tool_def)
  show "run timeout_agent ''q'' (Some 1)
     = (1, Inr \<lparr>answer = JStr ''I couldn't find a complete answer.'',
                steps = [[(''thought'', JStr ''look it up''), (''action'', JStr ''search''),
                          (''action_input'', JList [JStr ''a'', JStr ''b'']),
                          (''observation'', JStr ''Tool error: timeout'')]],
                iterations = 1, success = False\<rparr>)"
    using tool_failure_contained [where A = timeout_agent and made = 0 and st = ?st
        and a = "''search''" and ob = "''Tool error: timeout''" and q = "''q''" and k = 0
        and mi = 1 and p = "compose timeout_agent ''q''" and ss = "[]" and la = None]
      ct st tt
    by (simp add: run_def effective_max_iter_def)
  have cu: "call_llm (loads toolless_agent) (chat toolless_agent (Suc 0)) p = Inr ?st" for p
    using call_llm_doc_search by (simp add: toolless_agent_def)
  have tu: "tools toolless_agent ''search'' = None"
    by (simp add: toolless_agent_def)
  show "run toolless_agent ''q'' (Some 1)
     = (1, Inr \<lparr>answer = JStr ''I couldn't find a complete answer.'',
                steps = [[(''thought'', JStr ''look it up''), (''action'', JStr ''search''),
                          (''action_input'', JList [JStr ''a'', JStr ''b'']),
                          (''observation'', JStr ''Unknown tool: search'')]],
                iterations = 1, success = False\<rparr>)"
    using tool_failure_contained [where A = toolless_agent and made = 0 and st = ?st
        and a = "''search''" and ob = "''Unknown tool: search''" and q = "''q''" and k = 0
        and mi = 1 and p = "compose toolless_agent ''q''" and ss = "[]" and la = None]
      cu st tu
    by (simp add: run_def effective_max_iter_def)
  let ?B = "with_failing_verifier timeout_agent"
  have cb: "call_llm (loads ?B) (chat ?B (Suc 0)) p = Inr ?st" for p
    using ct by (simp add: with_failing_verifier_def)
  have tb: "tools ?B ''search'' = Some timeout_tool"
    using tt by (simp add: with_failing_verifier_def)
  define m0 where "m0 = Some (start_session sample_memory ''q'' (clock ?B SessionStamp)
                                (clock ?B SessionStart))"
  have H: "call_llm (loads ?B) (chat ?B (Suc 0)) (compose ?B ''q'') = Inr ?st
        \<and> log_thought (dict_get ?st ''thought'' (JStr '''')) = None
        \<and> step_action ?st = JStr ''search'' \<and> ''search'' \<noteq> [] \<and> ''search'' \<noteq> ''none''
        \<and> ((tools ?B ''search'' = None \<and> ''Tool error: timeout'' = ''Unknown tool: '' @ ''search'')
           \<or> (\<exists>t e. tools ?B ''search'' = Some t
                 \<and> t (Suc 0) (snd (normalize_input ''q'' (dict_get ?st ''action_input'' (JStr ''''))))
                     = Inl e
                 \<and> ''Tool error: timeout'' = ''Tool error: '' @ msg e))"
    using cb st(1,2) tb tt(2) by simp
  have "\<exists>s. adv_iteration ?B ''q'' True True (Suc 0) (compose ?B ''q'') m0 = Inr s
          \<and> step s = ?st \<and> \<not> stop s
          \<and> prefix (compose ?B ''q'' @ ''\<newline>\<newline>Observation: '' @ ''Tool error: timeout''
                      @ ''\<newline>Continue reasoning.'') (next_prompt s)
          \<and> adv_loop ?B ''q'' True True 1 (Suc 0) 0 (compose ?B ''q'') [] None m0
              = adv_loop ?B ''q'' True True 1 0 (Suc 0) (next_prompt s) ([] @ [?st])
                  (Some (final_answer s, verdict s)) (memory_after s)"
    by (rule tool_failure_contained [where B = ?B and made = 0 and st = ?st
          and a = "''search''" and ob = "''Tool error: timeout''" and q = "''q''" and k = 0
          and mi = 1 and p = "compose ?B ''q''" and ss = "[]" and prev = None and uv = True
          and um = True and m = m0, THEN conjunct2, THEN conjunct2, THEN conjunct2, THEN mp,
          OF H])
  then show "\<exists>r m'. adv_run (with_failing_verifier timeout_agent) (Some sample_memory) ''q'' (Some 1)
                True True = (1, m', Inr r)
        \<and> \<not> success r
        \<and> steps r = [[(''thought'', JStr ''look it up''), (''action'', JStr ''search''),
                       (''action_input'', JList [JStr ''a'', JStr ''b''])]]"
    by (auto simp: adv_run_def effective_max_iter_def Let_def m0_def)
  have D: "tools timeout_agent ''search'' = Some timeout_tool
             \<and> timeout_tool 1 (snd (normalize_input ''q'' (JList [JStr ''a'', JStr ''b''])))
                 = Inl (Exn OtherException ''timeout'')"
    using tt by simp
  show "dispatch (tools timeout_agent) 1 ''q'' (JStr ''search'') (JList [JStr ''a'', JStr ''b''])
     = Inr (''Tool error: timeout'', JStr ''a b'')"
    using tool_failure_contained [where reg = "tools timeout_agent" and a = "''search''"
        and t = timeout_tool and i = 1 and q = "''q''" and x = "JList [JStr ''a'', JStr ''b'']"
        and e = "Exn OtherException ''timeout''", THEN conjunct1, THEN mp, OF D]
    by (simp add: fst_normalize_input_list py_str_JStr)
qed

lemma parse_blocks_blank:
  "parse_blocks ld blocks acc = Inr pbs \<Longrightarrow> \<forall>x \<in> set acc. step_observation x = JStr '''' \<Longrightarrow>
   \<forall>x \<in> set pbs. step_observation x = JStr ''''"
proof (induction blocks arbitrary: acc)
  case Nil
  then show ?case by simp
next
  case (Cons b bs)
  show ?case
  proof (cases "ld b")
    case (Inl e)
    then show ?thesis
      using Cons.prems Cons.IH [of acc] by (simp split: if_splits)
  next
    case (Inr d)
    then show ?thesis
      using Cons.prems Cons.IH [of "acc @ [blank_observation d]"]
      by (simp add: step_observation_blank)
  qed
qed

lemma not_invokes_tool_error_step: "\<not> invokes_tool (error_step e)"
  by (simp add: invokes_tool_def step_action_def error_step_def dict_get_def)

lemma not_invokes_tool_fallback_step: "\<not> invokes_tool (fallback_step c)"
  by (simp add: invokes_tool_def step_action_def fallback_step_def dict_get_def)

text \<open>
  A step that comes out of the parser and invokes a tool carries no observation: what
  the model wrote there was blanked.
\<close>

lemma call_llm_observation_blank:
  assumes "call_llm ld ch p = Inr st" and "invokes_tool st"
  shows "step_observation st = JStr ''''"
proof (cases "ch p")
  case (Inl e)
  then show ?thesis
    using assms not_invokes_tool_error_step by (auto simp: call_llm_def split: if_splits)
next
  case (Inr raw)
  then have st: "st = parse_content ld raw"
    using assms(1) by (simp add: call_llm_def)
  show ?thesis
  proof (cases "parse_blocks ld (findall_braces (clean_content raw)) []")
    case (Inl e)
    then show ?thesis
      using st assms(2) not_invokes_tool_error_step by (simp add: parse_content_def)
  next
    case pb: (Inr pbs)
    show ?thesis
    proof (cases "pbs = []")
      case True
      then show ?thesis
        using st pb assms(2) not_invokes_tool_fallback_step by (simp add: parse_content_def)
    next
      case False
      then have "st = last pbs" "last pbs \<in> set pbs"
        using st pb by (simp_all add: parse_content_def)
      then show ?thesis
        using parse_blocks_blank [OF pb] by simp
    qed
  qed
qed

lemma adv_loop_steps:
  assumes "adv_loop B q uv um mi k made p ss prev m = (c, m', Inr r)"
    and "\<forall>s \<in> set ss. \<exists>j p'. call_llm (loads B) (chat B j) p' = Inr s"
  shows "\<forall>s \<in> set (steps r). \<exists>j p'. call_llm (loads B) (chat B j) p' = Inr s"
  using assms
proof (induction k arbitrary: made p ss prev m)
  case 0
  then show ?case by (auto split: option.splits)
next
  case (Suc k)
  show ?case
  proof (cases "adv_iteration B q uv um (Suc made) p m")
    case (Inl e)
    then show ?thesis using Suc.prems by simp
  next
    case (Inr s)
    then have c: "call_llm (loads B) (chat B (Suc made)) p = Inr (step s)"
      using adv_iteration_cases [OF Inr] by auto
    then have ss': "\<forall>x \<in> set (ss @ [step s]). \<exists>j p'. call_llm (loads B) (chat B j) p' = Inr x"
      using Suc.prems(2) by auto
    show ?thesis
    proof (cases "stop s")
      case True
      then have "steps r = ss @ [step s]"
        using Inr Suc.prems(1) by auto
      then show ?thesis using ss' by simp
    next
      case False
      then have "adv_loop B q uv um mi k (Suc made) (next_prompt s) (ss @ [step s])
                   (Some (final_answer s, verdict s)) (memory_after s) = (c, m', Inr r)"
        using Inr Suc.prems(1) by simp
      then show ?thesis
        using ss' by (rule Suc.IH)
    qed
  qed
qed

lemma record_step_observation:
  assumes "session_open mm"
  shows "\<exists>mm'. record_step B True (Some mm) i th a ai ob f vd = Some mm'
           \<and> length (history mm') = Suc (length (history mm))
           \<and> dict_get (last (history mm')) ''observation'' JNull = JStr ob"
  using assms
  by (simp add: record_step_def add_step_def dict_merge_def dict_get_def Let_def)

text \<open>
  Claim C10. The extended controller stores each parsed step as the parser returned it:
  every step of the result of a run is a value of \<^verbatim>\<open>_call_llm\<close>, and when it invoked a
  tool its observation reads empty. The observation of the tool goes to the next prompt
  and, with the memory in use and a session open, into the record of the step in the
  memory. The base controller, in contrast, writes the observation into the step it
  stores.
\<close>

theorem stored_steps_keep_parser_observation:
  "(adv_run B mem q mi uv um = (c, m', Inr r)
      \<longrightarrow> (\<forall>s \<in> set (steps r).
             (\<exists>j p'. call_llm (loads B) (chat B j) p' = Inr s)
             \<and> (if invokes_tool s then step_observation s = JStr '''' else True)))
   \<and> (call_llm (loads B) (chat B i) p = Inr st
        \<and> log_thought (dict_get st ''thought'' (JStr '''')) = None \<and> invokes_tool st
        \<and> dispatch (tools B) i q (step_action st) (dict_get st ''action_input'' (JStr ''''))
            = Inr (ob, ai)
      \<longrightarrow> (\<exists>s. adv_iteration B q uv um i p m = Inr s \<and> step s = st
             \<and> step_observation (step s) = JStr ''''
             \<and> prefix (p @ ''\<newline>\<newline>Observation: '' @ ob @ ''\<newline>Continue reasoning.'')
                  (next_prompt s)
             \<and> (um \<and> m = Some mm \<and> session_open mm
                  \<longrightarrow> (\<exists>mm'. memory_after s = Some mm'
                         \<and> length (history mm') = Suc (length (history mm))
                         \<and> dict_get (last (history mm')) ''observation'' JNull = JStr ob))))
   \<and> (call_llm (loads A) (chat A i) p = Inr st
        \<and> log_thought (dict_get st ''thought'' (JStr '''')) = None \<and> invokes_tool st
        \<and> dispatch (tools A) i q (step_action st) (dict_get st ''action_input'' (JStr ''''))
            = Inr (ob, ai)
      \<longrightarrow> (\<exists>p' f. base_iteration A q i p
                      = Inr (dict_set st ''observation'' (JStr ob), p', f, False))
          \<and> step_observation (dict_set st ''observation'' (JStr ob)) = JStr ob)"
proof (intro conjI impI)
  {
    assume h: "adv_run B mem q mi uv um = (c, m', Inr r)"
    then obtain mem0 k mx where
      L: "adv_loop B q uv um mx k 0 (compose B q) [] None mem0 = (c, m', Inr r)"
      by (auto simp: adv_run_def Let_def)
    have "\<forall>s \<in> set (steps r). \<exists>j p'. call_llm (loads B) (chat B j) p' = Inr s"
      by (rule adv_loop_steps [OF L]) simp
    then show "\<forall>s \<in> set (steps r).
             (\<exists>j p'. call_llm (loads B) (chat B j) p' = Inr s)
             \<and> (if invokes_tool s then step_observation s = JStr '''' else True)"
      using call_llm_observation_blank by auto
  }
  {
    assume h: "call_llm (loads B) (chat B i) p = Inr st
        \<and> log_thought (dict_get st ''thought'' (JStr '''')) = None \<and> invokes_tool st
        \<and> dispatch (tools B) i q (step_action st) (dict_get st ''action_input'' (JStr ''''))
            = Inr (ob, ai)"
    then have c: "call_llm (loads B) (chat B i) p = Inr st"
      and lg: "log_thought (dict_get st ''thought'' (JStr '''')) = None"
      and inv: "invokes_tool st"
      and d: "dispatch (tools B) i q (step_action st) (dict_get st ''action_input'' (JStr ''''))
                = Inr (ob, ai)"
      by simp_all
    have "\<exists>s. adv_iteration B q uv um i p m = Inr s"
      by (simp add: adv_iteration_tool [OF c lg inv d])
    then obtain s where s: "adv_iteration B q uv um i p m = Inr s"
      by blast
    have st: "step s = st"
      and np: "prefix (p @ ''\<newline>\<newline>Observation: '' @ ob @ ''\<newline>Continue reasoning.'')
                 (next_prompt s)"
      and ma: "memory_after s
                 = record_step B um m i (dict_get st ''thought'' (JStr '''')) (step_action st) ai
                     ob (step_final_answer st) (verdict s)"
      using s prefix_run_verifier unfolding adv_iteration_tool [OF c lg inv d]
      by auto
    have ob: "step_observation (step s) = JStr ''''"
      using call_llm_observation_blank [OF c inv] st by simp
    have mem: "um \<and> m = Some mm \<and> session_open mm
                  \<longrightarrow> (\<exists>mm'. memory_after s = Some mm'
                         \<and> length (history mm') = Suc (length (history mm))
                         \<and> dict_get (last (history mm')) ''observation'' JNull = JStr ob)"
      using record_step_observation [of mm B i] ma by auto
    show "\<exists>s. adv_iteration B q uv um i p m = Inr s \<and> step s = st
             \<and> step_observation (step s) = JStr ''''
             \<and> prefix (p @ ''\<newline>\<newline>Observation: '' @ ob @ ''\<newline>Continue reasoning.'')
                  (next_prompt s)
             \<and> (um \<and> m = Some mm \<and> session_open mm
                  \<longrightarrow> (\<exists>mm'. memory_after s = Some mm'
                         \<and> length (history mm') = Suc (length (history mm))
                         \<and> dict_get (last (history mm')) ''observation'' JNull = JStr ob))"
      using s st ob np mem by (intro exI [of _ s]) simp
  }
  {
    assume h: "call_llm (loads A) (chat A i) p = Inr st
        \<and> log_thought (dict_get st ''thought'' (JStr '''')) = None \<and> invokes_tool st
        \<and> dispatch (tools A) i q (step_action st) (dict_get st ''action_input'' (JStr ''''))
            = Inr (ob, ai)"
    then show "\<exists>p' f. base_iteration A q i p
                      = Inr (dict_set st ''observation'' (JStr ob), p', f, False)"
      using base_iteration_tool [of A i p st q ob ai] by simp
    show "step_observation (dict_set st ''observation'' (JStr ob)) = JStr ob"
      by (simp add: step_observation_def dict_get_dict_set_same)
  }
qed

theorem stored_steps_keep_parser_observation_witness:
  "(\<exists>r m'. adv_run (with_failing_verifier search_agent) (Some sample_memory) ''q'' (Some 1)
               False True = (1, Some m', Inr r)
       \<and> steps r = [[(''thought'', JStr ''look it up''), (''action'', JStr ''search''),
                      (''action_input'', JList [JStr ''a'', JStr ''b''])]]
       \<and> step_observation (last (steps r)) = JStr ''''
       \<and> dict_get (last (history m')) ''observation'' JNull = JStr ''found: a b'')
   \<and> (\<exists>p' f. base_iteration search_agent ''q'' 1 ''Question: q''
                = Inr ([(''thought'', JStr ''look it up''), (''action'', JStr ''search''),
                        (''action_input'', JList [JStr ''a'', JStr ''b'']),
                        (''observation'', JStr ''found: a b'')], p', f, False))"
proof (intro conjI)
  let ?st = "[(''thought'', JStr ''look it up''), (''action'', JStr ''search''),
              (''action_input'', JList [JStr ''a'', JStr ''b''])]"
  let ?B = "with_failing_verifier search_agent"
  have st: "log_thought (dict_get ?st ''thought'' (JStr '''')) = None" "invokes_tool ?st"
    "step_action ?st = JStr ''search''" "step_ok ?st"
    "dict_get ?st ''action_input'' (JStr '''') = JList [JStr ''a'', JStr ''b'']"
    "dict_set ?st ''observation'' v = ?st @ [(''observation'', v)]" for v
    by (simp_all add: step_defs)
  have ca: "call_llm (loads search_agent) (chat search_agent j) p = Inr ?st" for j p
    using call_llm_doc_search by (simp add: search_agent_def)
  have cb: "call_llm (loads ?B) (chat ?B j) p = Inr ?st" for j p
    using ca by (simp add: with_failing_verifier_def)
  have da: "dispatch (tools search_agent) j ''q'' (step_action ?st)
              (dict_get ?st ''action_input'' (JStr '''')) = Inr (''found: a b'', JStr ''a b'')" for j
    by (simp add: st dispatch_JStr search_agent_def found_tool_def snd_normalize_input
        fst_normalize_input_list py_str_JStr py_strip_a_b)
  have db: "dispatch (tools ?B) j ''q'' (step_action ?st)
              (dict_get ?st ''action_input'' (JStr '''')) = Inr (''found: a b'', JStr ''a b'')" for j
    using da [of j] by (simp add: with_failing_verifier_def)
  define mm where "mm = start_session sample_memory ''q'' (clock ?B SessionStamp)
                          (clock ?B SessionStart)"
  have op: "session_open mm"
    by (simp add: mm_def session_open_def start_session_def)
  have H: "call_llm (loads ?B) (chat ?B (Suc 0)) (compose ?B ''q'') = Inr ?st
        \<and> log_thought (dict_get ?st ''thought'' (JStr '''')) = None \<and> invokes_tool ?st
        \<and> dispatch (tools ?B) (Suc 0) ''q'' (step_action ?st)
             (dict_get ?st ''action_input'' (JStr '''')) = Inr (''found: a b'', JStr ''a b'')"
    using cb st(1,2) db by simp
  have "\<exists>s. adv_iteration ?B ''q'' False True (Suc 0) (compose ?B ''q'') (Some mm) = Inr s
          \<and> step s = ?st \<and> step_observation (step s) = JStr ''''
          \<and> prefix (compose ?B ''q'' @ ''\<newline>\<newline>Observation: '' @ ''found: a b''
                      @ ''\<newline>Continue reasoning.'') (next_prompt s)
          \<and> (True \<and> Some mm = Some mm \<and> session_open mm
                \<longrightarrow> (\<exists>mm'. memory_after s = Some mm'
                       \<and> length (history mm') = Suc (length (history mm))
                       \<and> dict_get (last (history mm')) ''observation'' JNull
                           = JStr ''found: a b''))"
    by (rule stored_steps_keep_parser_observation [where B = ?B and i = "Suc 0" and st = ?st
          and p = "compose ?B ''q''" and q = "''q''" and ob = "''found: a b''"
          and ai = "JStr ''a b''" and uv = False and um = True and m = "Some mm" and mm = mm,
          THEN conjunct2, THEN conjunct1, THEN mp, OF H])
  then obtain s mm' where s:
    "adv_iteration ?B ''q'' False True (Suc 0) (compose ?B ''q'') (Some mm) = Inr s"
    "step s = ?st" "step_observation (step s) = JStr ''''" "memory_after s = Some mm'"
    "dict_get (last (history mm')) ''observation'' JNull = JStr ''found: a b''"
    using op by auto
  have ns: "\<not> stop s"
    using adv_iteration_ok [OF cb [of "Suc 0" "compose ?B ''q''"] st(4), where q = "''q''"
          and uv = False and um = True and m = "Some mm"]
      s(1) invokes_tool_not_final [OF st(2)]
    by auto
  have run: "adv_run ?B (Some sample_memory) ''q'' (Some 1) False True
               = (1, Some (fst (save_session mm' (clock ?B SessionEnd))),
                  Inr \<lparr>answer = (if py_truthy (final_answer s) then final_answer s
                                   else JStr ''I couldn't find a complete answer.''),
                       steps = [?st], iterations = 1, success = False,
                       verification = verdict s\<rparr>)"
    using s ns
    by (simp add: adv_run_def effective_max_iter_def Let_def mm_def [symmetric] save_memory_def)
  show "\<exists>r m'. adv_run (with_failing_verifier search_agent) (Some sample_memory) ''q'' (Some 1)
               False True = (1, Some m', Inr r)
       \<and> steps r = [[(''thought'', JStr ''look it up''), (''action'', JStr ''search''),
                      (''action_input'', JList [JStr ''a'', JStr ''b''])]]
       \<and> step_observation (last (steps r)) = JStr ''''
       \<and> dict_get (last (history m')) ''observation'' JNull = JStr ''found: a b''"
    unfolding run using s(2,3,5) by (simp add: history_save_session)
  have HA: "call_llm (loads search_agent) (chat search_agent 1) ''Question: q'' = Inr ?st
        \<and> log_thought (dict_get ?st ''thought'' (JStr '''')) = None \<and> invokes_tool ?st
        \<and> dispatch (tools search_agent) 1 ''q'' (step_action ?st)
             (dict_get ?st ''action_input'' (JStr '''')) = Inr (''found: a b'', JStr ''a b'')"
    using ca st(1,2) da by simp
  show "\<exists>p' f. base_iteration search_agent ''q'' 1 ''Question: q''
                = Inr ([(''thought'', JStr ''look it up''), (''action'', JStr ''search''),
                        (''action_input'', JList [JStr ''a'', JStr ''b'']),
                        (''observation'', JStr ''found: a b'')], p', f, False)"
    using stored_steps_keep_parser_observation [where A = search_agent and i = 1 and st = ?st
          and p = "''Question: q''" and q = "''q''" and ob = "''found: a b''"
          and ai = "JStr ''a b''", THEN conjunct2, THEN conjunct2, THEN mp, OF HA]
    by (simp add: st(6))
qed

section \<open>The configured ceiling\<close>

text \<open>
  Without an argument, or with the argument \<open>0\<close>, the ceiling is the configured one: what
  is stated above of a run with the ceiling \<open>n\<close> holds of a run under a configuration
  whose \<^verbatim>\<open>max_iterations\<close> is \<open>n\<close>.
\<close>

lemma run_configured_ceiling:
  "config_max_iterations A \<noteq> 0 \<Longrightarrow>
   run A q None = run A q (Some (config_max_iterations A))
   \<and> run A q (Some 0) = run A q (Some (config_max_iterations A))"
  by (simp add: run_def effective_max_iter_def)

lemma adv_run_configured_ceiling:
  "config_max_iterations B \<noteq> 0 \<Longrightarrow>
   adv_run B mem q None uv um = adv_run B mem q (Some (config_max_iterations B)) uv um
   \<and> adv_run B mem q (Some 0) uv um = adv_run B mem q (Some (config_max_iterations B)) uv um"
  by (simp add: adv_run_def effective_max_iter_def)

text \<open>
  A ceiling below \<open>1\<close> that is not \<open>0\<close> leaves the loop without a pass, and the
  fallback then reads \<^verbatim>\<open>answer\<close> before it was ever assigned.
\<close>

lemma run_negative_ceiling:
  "n < 0 \<Longrightarrow> run A q (Some n) = (0, Inl (Exn UnboundLocalError ''answer''))"
  by (simp add: run_def effective_max_iter_def)

section \<open>Steps outside the schema, and the empty verdict\<close>

lemmas edge_docs =
  doc_numeric_thought_def doc_list_action_def doc_numeric_final_def doc_empty_def

lemma call_llm_numeric_thought:
  "call_llm edge_loads (\<lambda>p. Inr doc_numeric_thought) p
     = Inr [(''thought'', JInt 7), (''action'', JStr ''search''),
            (''action_input'', JStr ''x'')]"
  by (simp add: parser_defs edge_loads_def edge_docs)

lemma call_llm_list_action:
  "call_llm edge_loads (\<lambda>p. Inr doc_list_action) p
     = Inr [(''thought'', JStr ''t''), (''action'', JList [JStr ''search''])]"
  by (simp add: parser_defs edge_loads_def edge_docs)

lemma call_llm_numeric_final:
  "call_llm edge_loads (\<lambda>p. Inr doc_numeric_final) p
     = Inr [(''thought'', JInt 7), (''action'', JStr ''none''),
            (''action_input'', JStr ''''), (''final_answer'', JStr ''4'')]"
  by (simp add: parser_defs edge_loads_def edge_docs)

lemma call_llm_edge_final:
  "call_llm edge_loads (\<lambda>p. Inr doc_final) p
     = Inr [(''thought'', JStr ''arithmetic''), (''action'', JStr ''none''),
            (''action_input'', JStr ''''), (''final_answer'', JStr ''4'')]"
  by (simp add: parser_defs edge_loads_def edge_docs sample_loads_def sample_docs)

lemma verify_empty_object:
  "verify edge_loads (\<lambda>p. Inr doc_empty) q a ob ctx = []"
  by (simp add: verify_def py_strip_def py_isspace_def findall_braces_def edge_loads_def
      edge_docs)

lemma stub_agent_sel:
  "loads (stub_agent r) = edge_loads"
  "chat (stub_agent r) j = (\<lambda>p. Inr r)"
  "loads (with_verifier_reply v (stub_agent r)) = edge_loads"
  "chat (with_verifier_reply v (stub_agent r)) j = (\<lambda>p. Inr r)"
  "verifier (with_verifier_reply v A) = Some (\<lambda>iteration prompt. Inr v)"
  by (simp_all add: stub_agent_def with_verifier_reply_def)

text \<open>
  Claim C3. The loop is to end within the ceiling on every run, and a reasoning model
  that always asks for a tool is to take it to the ceiling: with the ceiling 3, three
  calls, then a result with \<open>success = False\<close> and \<open>iterations = 3\<close>. The body of
  the loop slices the thought of the parsed step for a log line and looks its action up
  in the registry, both outside any \<^verbatim>\<open>try\<close>. On a model that always answers
  \<open>doc_numeric_thought\<close>, a step that asks for the tool \<^verbatim>\<open>search\<close> and whose thought
  is the number 7, either controller raises \<^verbatim>\<open>TypeError\<close> in its first pass, after one
  call; on a model that always answers \<open>doc_list_action\<close>, whose action is a list, the
  look-up raises it. Neither run returns a result.
\<close>

theorem run_raises_on_untyped_step:
  "run (stub_agent doc_numeric_thought) ''q'' (Some 3)
     = (1, Inl (Exn TypeError ''int object is not subscriptable''))
   \<and> adv_run (with_verifier_reply doc_fail (stub_agent doc_numeric_thought)) None ''q''
       (Some 3) True True
     = (1, None, Inl (Exn TypeError ''int object is not subscriptable''))
   \<and> run (stub_agent doc_list_action) ''q'' (Some 3)
     = (1, Inl (Exn TypeError ''unhashable type: list''))
   \<and> adv_run (with_verifier_reply doc_fail (stub_agent doc_list_action)) None ''q''
       (Some 3) True True
     = (1, None, Inl (Exn TypeError ''unhashable type: list''))"
  by (simp add: run_def adv_run_def effective_max_iter_def base_iteration_def
      adv_iteration_def stub_agent_sel call_llm_numeric_thought call_llm_list_action
      log_thought_def py_slice_to_def dict_get_def dispatch_def
      numeral_3_eq_3 Let_def)

text \<open>
  Claim C4. With verification disabled the loop is to stop at the first iteration whose
  parsed step has the action \<^verbatim>\<open>none\<close> and a non-empty final answer, and to return
  \<open>success = True\<close> with that answer and that iteration's number. On a model that
  always answers \<open>doc_numeric_final\<close> the step parsed in the first iteration is such a
  step, with the final answer \<^verbatim>\<open>4\<close>; its thought is the number 7, and either
  controller raises \<^verbatim>\<open>TypeError\<close> from the log line of the thought, before it
  reaches the test that stops the loop. (With the thought \<^verbatim>\<open>arithmetic\<close> the run
  returns what the specification's scenario says: \<open>run_final_agent_scenario\<close>.)
\<close>

theorem run_raises_on_final_step:
  "run (stub_agent doc_numeric_final) ''What is 2+2'' (Some 3)
     = (1, Inl (Exn TypeError ''int object is not subscriptable''))
   \<and> adv_run (with_verifier_reply doc_fail (stub_agent doc_numeric_final)) None
       ''What is 2+2'' (Some 3) False True
     = (1, None, Inl (Exn TypeError ''int object is not subscriptable''))"
  by (simp add: run_def adv_run_def effective_max_iter_def base_iteration_def
      adv_iteration_def stub_agent_sel call_llm_numeric_final
      log_thought_def py_slice_to_def dict_get_def
      numeral_3_eq_3 Let_def)

text \<open>
  Claim C5. With a verifier attached and verification enabled, the loop is never to stop
  with success on an iteration whose verdict is other than \<^verbatim>\<open>pass\<close>. The controller
  looks at the verdict only \<^verbatim>\<open>if use_verifier and self.verifier and verification\<close>,
  and the verifier hands back whatever object the reply of its model decodes to. On the
  reply \<^verbatim>\<open>{}\<close> that is the empty mapping, which holds no verdict and is falsy: the
  verdict is not looked at, and the loop stops in the first iteration with
  \<open>success = True\<close>.
\<close>

theorem success_on_empty_verdict:
  "adv_run (with_verifier_reply doc_empty (stub_agent doc_final)) None ''What is 2+2''
     (Some 3) True True
     = (1, None,
        Inr \<lparr>answer = JStr ''4'',
             steps = [[(''thought'', JStr ''arithmetic''), (''action'', JStr ''none''),
                       (''action_input'', JStr ''''), (''final_answer'', JStr ''4'')]],
             iterations = 1, success = True, verification = Some []\<rparr>)"
proof -
  have c: "call_llm (loads (with_verifier_reply doc_empty (stub_agent doc_final)))
             (chat (with_verifier_reply doc_empty (stub_agent doc_final)) j) p
           = Inr [(''thought'', JStr ''arithmetic''), (''action'', JStr ''none''),
                  (''action_input'', JStr ''''), (''final_answer'', JStr ''4'')]" for j p
    by (simp add: stub_agent_sel call_llm_edge_final)
  have it: "adv_iteration (with_verifier_reply doc_empty (stub_agent doc_final))
              ''What is 2+2'' True True j p None
              = Inr \<lparr>step = [(''thought'', JStr ''arithmetic''), (''action'', JStr ''none''),
                           (''action_input'', JStr ''''), (''final_answer'', JStr ''4'')],
                   next_prompt = p, final_answer = JStr ''4'',
                   verdict = Some [], memory_after = None, stop = True\<rparr>" for j p
    by (subst adv_iteration_no_tool [OF c])
      (simp_all add: step_defs run_verifier_def stub_agent_sel verify_empty_object
        should_stop_def record_step_def Let_def)
  show ?thesis
    by (simp add: adv_run_def effective_max_iter_def Let_def numeral_3_eq_3 it save_memory_def)
qed

end
